theory Spec2Isabelle
  imports Main
begin

section \<open>Data model of the bracket page\<close>

text \<open>
  The bracket editor is the React component \<open>BracketPage\<close>.  Its state hooks are
  modelled as one record that every handler takes and returns; the backend is a pair of
  functions whose results (\<open>Inl\<close> a thrown error, \<open>Inr\<close> the parsed response) the handlers
  inspect.

  A property declared \<open>p?: T | null\<close> has three readings in JavaScript: absent, null,
  or a value.  They are kept apart, because the propagation code writes \<open>x ?? null\<close>.
  A property declared \<open>p: T | null\<close> is an \<open>option\<close>.  JavaScript numbers that hold
  round, slot and game counts are integers here.
\<close>

datatype 'a optional = Undefined | Null | Defined 'a

datatype side = A | B

datatype slot_letter = SlotA | SlotB

record match =
  id_m :: string
  bracket_id :: string
  conference :: string
  round :: int
  slot :: int
  team_a :: "string option"
  team_b :: "string option"
  predicted_winner :: "string option"
  predicted_winner_games :: "int option"
  next_match_id :: "string optional"
  next_slot :: "slot_letter optional"
  team_a_name :: "string optional"
  team_b_name :: "string optional"
  team_a_code :: "string optional"
  team_b_code :: "string optional"
  team_a_logo_url :: "string optional"
  team_b_logo_url :: "string optional"
  team_a_primary_color :: "string optional"
  team_a_secondary_color :: "string optional"
  team_b_primary_color :: "string optional"
  team_b_secondary_color :: "string optional"

text \<open>\<open>MatchesByConfRound\<close>: conference key, then round key, then the matches.\<close>

type_synonym matches_by_conf_round = "(string \<times> (string \<times> match list) list) list"

record bracket =
  id_b :: string
  user_id :: string
  is_done :: bool
  saved_at :: "string optional"
  name :: "string optional"
  is_owner :: "bool optional"
  is_master :: "bool optional"
  isMaster :: "bool optional"

record bracket_response =
  resp_bracket :: bracket
  resp_matches :: matches_by_conf_round

record auth_user =
  is_admin :: "bool optional"

text \<open>What \<open>useParams\<close> and \<open>useAuth\<close> hand to the component.\<close>

record page_env =
  bracketId :: "string option"
  user :: "auth_user option"

record page_state =
  bracket :: "bracket option"
  matches :: "matches_by_conf_round option"
  loading :: bool
  saving :: bool
  updatingMatchId :: "string option"
  error :: "string option"
  bracketName :: string
  saveMessage :: "string option"
  playoffsLocked :: bool
  pendingGames :: "string \<rightharpoonup> int"

text \<open>The body of a PATCH request, and the request with its path.\<close>

datatype patch_body =
  SetWinnerBody string int
  | UndoBody
  | SaveBody string

record patch_call =
  path :: string
  body :: patch_body

record api_error =
  message :: string

record patch_response =
  res_name :: "string optional"
  res_saved_at :: "string optional"

record api =
  get :: "string \<Rightarrow> api_error + bracket_response"
  patch :: "string \<Rightarrow> patch_body \<Rightarrow> api_error + patch_response"

section \<open>JavaScript operators used by the handlers\<close>

text \<open>\<open>!!s\<close> for a string that may be null: null and the empty string are falsy.\<close>

definition truthy :: "string option \<Rightarrow> bool" where
  "truthy s = (case s of None \<Rightarrow> False | Some v \<Rightarrow> v \<noteq> [])"

definition truthy_opt :: "string optional \<Rightarrow> bool" where
  "truthy_opt s = (case s of Defined v \<Rightarrow> v \<noteq> [] | _ \<Rightarrow> False)"

text \<open>\<open>x ?? null\<close>.\<close>

definition or_null :: "'a optional \<Rightarrow> 'a optional" where
  "or_null x = (case x of Undefined \<Rightarrow> Null | _ \<Rightarrow> x)"

text \<open>\<open>Boolean(x)\<close> and \<open>x ?? false\<close> for an optional boolean.\<close>

definition truthy_bool :: "bool optional \<Rightarrow> bool" where
  "truthy_bool x = (case x of Defined b \<Rightarrow> b | _ \<Rightarrow> False)"

text \<open>\<open>err.message || fallback\<close>.\<close>

definition message_or :: "api_error \<Rightarrow> string \<Rightarrow> string" where
  "message_or err fallback = (if message err = [] then fallback else message err)"

text \<open>
  \<open>String.prototype.trim\<close>.  A string is the list of its UTF-8 bytes; \<open>white_space\<close>
  lists the encodings of the code points that JavaScript removes: the white space
  (U+0009, U+000B, U+000C, U+FEFF and the space separators U+0020, U+00A0, U+1680,
  U+2000 to U+200A, U+202F, U+205F, U+3000) and the line terminators (U+000A, U+000D,
  U+2028, U+2029).  \<open>leading_space\<close> and \<open>trailing_space\<close> give the number of bytes of
  such a code point at the start and at the end of a string, 0 when there is none.
\<close>

definition white_space :: "string list" where
  "white_space =
     [[CHR 0x09], [CHR 0x0A], [CHR 0x0B], [CHR 0x0C], [CHR 0x0D], [CHR 0x20],
      [CHR 0xC2, CHR 0xA0],
      [CHR 0xE1, CHR 0x9A, CHR 0x80],
      [CHR 0xE2, CHR 0x80, CHR 0x80], [CHR 0xE2, CHR 0x80, CHR 0x81],
      [CHR 0xE2, CHR 0x80, CHR 0x82], [CHR 0xE2, CHR 0x80, CHR 0x83],
      [CHR 0xE2, CHR 0x80, CHR 0x84], [CHR 0xE2, CHR 0x80, CHR 0x85],
      [CHR 0xE2, CHR 0x80, CHR 0x86], [CHR 0xE2, CHR 0x80, CHR 0x87],
      [CHR 0xE2, CHR 0x80, CHR 0x88], [CHR 0xE2, CHR 0x80, CHR 0x89],
      [CHR 0xE2, CHR 0x80, CHR 0x8A],
      [CHR 0xE2, CHR 0x80, CHR 0xA8], [CHR 0xE2, CHR 0x80, CHR 0xA9],
      [CHR 0xE2, CHR 0x80, CHR 0xAF],
      [CHR 0xE2, CHR 0x81, CHR 0x9F],
      [CHR 0xE3, CHR 0x80, CHR 0x80],
      [CHR 0xEF, CHR 0xBB, CHR 0xBF]]"

definition leading_space :: "string \<Rightarrow> nat" where
  "leading_space s =
     (case find (\<lambda>w. take (length w) s = w) white_space of
        None \<Rightarrow> 0
      | Some w \<Rightarrow> length w)"

definition trailing_space :: "string \<Rightarrow> nat" where
  "trailing_space s =
     (case find (\<lambda>w. drop (length s - length w) s = w) white_space of
        None \<Rightarrow> 0
      | Some w \<Rightarrow> length w)"

function trimStart :: "string \<Rightarrow> string" where
  "trimStart s = (if leading_space s = 0 then s else trimStart (drop (leading_space s) s))"
  by pat_completeness auto
termination
proof (relation "measure length")
  show "wf (measure length)" by simp
next
  fix s :: string
  assume nz: "leading_space s \<noteq> 0"
  have "leading_space s \<le> length s"
  proof (cases "find (\<lambda>w. take (length w) s = w) white_space")
    case None
    then show ?thesis by (simp add: leading_space_def)
  next
    case (Some w)
    then have "take (length w) s = w" by (auto simp: find_Some_iff)
    from arg_cong[OF this, of length] have "length w \<le> length s" by simp
    with Some show ?thesis by (simp add: leading_space_def)
  qed
  with nz show "(drop (leading_space s) s, s) \<in> measure length" by simp
qed

function trimEnd :: "string \<Rightarrow> string" where
  "trimEnd s = (if trailing_space s = 0 then s else trimEnd (take (length s - trailing_space s) s))"
  by pat_completeness auto
termination
proof (relation "measure length")
  show "wf (measure length)" by simp
next
  fix s :: string
  assume nz: "trailing_space s \<noteq> 0"
  have "trailing_space s \<le> length s"
  proof (cases "find (\<lambda>w. drop (length s - length w) s = w) white_space")
    case None
    then show ?thesis by (simp add: trailing_space_def)
  next
    case (Some w)
    then have "drop (length s - length w) s = w" by (auto simp: find_Some_iff)
    from arg_cong[OF this, of length] have "length w \<le> length s" by simp
    with Some show ?thesis by (simp add: trailing_space_def)
  qed
  with nz show "(take (length s - trailing_space s) s, s) \<in> measure length" by simp
qed

declare trimStart.simps [simp del] trimEnd.simps [simp del]

definition trim :: "string \<Rightarrow> string" where
  "trim s = trimEnd (trimStart s)"

section \<open>Derived flags\<close>

definition isOwner :: "page_state \<Rightarrow> bool" where
  "isOwner st = (case bracket st of None \<Rightarrow> False | Some b \<Rightarrow> truthy_bool (is_owner b))"

definition isAdmin :: "page_env \<Rightarrow> bool" where
  "isAdmin env = (case user env of None \<Rightarrow> False | Some u \<Rightarrow> truthy_bool (is_admin u))"

definition isMasterBracket :: "page_state \<Rightarrow> bool" where
  "isMasterBracket st =
     (case bracket st of None \<Rightarrow> False
      | Some b \<Rightarrow> truthy_bool (is_master b) \<or> truthy_bool (isMaster b))"

definition canEdit :: "page_env \<Rightarrow> page_state \<Rightarrow> bool" where
  "canEdit env st = (isOwner st \<or> (isAdmin env \<and> isMasterBracket st))"

definition savingLockedForUser :: "page_env \<Rightarrow> page_state \<Rightarrow> bool" where
  "savingLockedForUser env st = (playoffsLocked st \<and> \<not> isAdmin env)"

section \<open>Loading the bracket\<close>

definition loadBracket :: "page_env \<Rightarrow> api \<Rightarrow> bool \<Rightarrow> page_state \<Rightarrow> page_state" where
  "loadBracket env backend silent st =
     (case bracketId env of
        None \<Rightarrow> st
      | Some bid \<Rightarrow>
          if bid = [] then st
          else
            let st1 = (if \<not> silent then st\<lparr>loading := True\<rparr> else st);
                st2 = st1\<lparr>error := None\<rparr>;
                st3 = (case get backend (''/bracket/'' @ bid) of
                         Inr data \<Rightarrow>
                           st2\<lparr>bracket := Some (resp_bracket data),
                               matches := Some (resp_matches data),
                               bracketName :=
                                 (case name (resp_bracket data) of
                                    Defined n \<Rightarrow> n | _ \<Rightarrow> [])\<rparr>
                       | Inl err \<Rightarrow>
                           st2\<lparr>error := Some (message_or err ''Failed to load bracket'')\<rparr>)
            in if \<not> silent then st3\<lparr>loading := False\<rparr> else st3)"

section \<open>Optimistic updates of the graph\<close>

text \<open>\<open>updateMatchInState\<close>: the function handed to \<open>setMatches\<close>.\<close>

definition updateMatchInState ::
  "string \<Rightarrow> (match \<Rightarrow> match) \<Rightarrow> matches_by_conf_round option \<Rightarrow> matches_by_conf_round option"
where
  "updateMatchInState matchId updater prev =
     (case prev of
        None \<Rightarrow> None
      | Some p \<Rightarrow>
          Some (map (\<lambda>(conf, rounds).
                  (conf, map (\<lambda>(roundKey, ms).
                           (roundKey, map (\<lambda>m. if id_m m = matchId then updater m else m) ms))
                         rounds))
                p))"

text \<open>Reading and writing the fields of one side through the computed keys.\<close>

definition src_name :: "side \<Rightarrow> match \<Rightarrow> string optional" where
  "src_name s m = (if s = A then team_a_name m else team_b_name m)"

definition src_code :: "side \<Rightarrow> match \<Rightarrow> string optional" where
  "src_code s m = (if s = A then team_a_code m else team_b_code m)"

definition src_logo :: "side \<Rightarrow> match \<Rightarrow> string optional" where
  "src_logo s m = (if s = A then team_a_logo_url m else team_b_logo_url m)"

definition src_primary :: "side \<Rightarrow> match \<Rightarrow> string optional" where
  "src_primary s m = (if s = A then team_a_primary_color m else team_b_primary_color m)"

definition src_secondary :: "side \<Rightarrow> match \<Rightarrow> string optional" where
  "src_secondary s m = (if s = A then team_a_secondary_color m else team_b_secondary_color m)"

definition src_team :: "side \<Rightarrow> match \<Rightarrow> string option" where
  "src_team s m = (if s = A then team_a m else team_b m)"

definition write_slot :: "side \<Rightarrow> string \<Rightarrow> side \<Rightarrow> match \<Rightarrow> match \<Rightarrow> match" where
  "write_slot dest teamId srcSide src m =
     (if dest = A then
        m\<lparr>team_a := Some teamId,
          team_a_name := or_null (src_name srcSide src),
          team_a_code := or_null (src_code srcSide src),
          team_a_logo_url := or_null (src_logo srcSide src),
          team_a_primary_color := or_null (src_primary srcSide src),
          team_a_secondary_color := or_null (src_secondary srcSide src),
          predicted_winner := None,
          predicted_winner_games := None\<rparr>
      else
        m\<lparr>team_b := Some teamId,
          team_b_name := or_null (src_name srcSide src),
          team_b_code := or_null (src_code srcSide src),
          team_b_logo_url := or_null (src_logo srcSide src),
          team_b_primary_color := or_null (src_primary srcSide src),
          team_b_secondary_color := or_null (src_secondary srcSide src),
          predicted_winner := None,
          predicted_winner_games := None\<rparr>)"

definition updateNextMatchSlotInState ::
  "match \<Rightarrow> side \<Rightarrow> string \<Rightarrow> matches_by_conf_round option \<Rightarrow> matches_by_conf_round option"
where
  "updateNextMatchSlotInState mt winnerSide winnerTeamId prev =
     (case next_match_id mt of
        Defined target \<Rightarrow>
          if target = [] then prev
          else
            (case next_slot mt of
               Defined letter \<Rightarrow>
                 let destSlotLetter = (if letter = SlotA then A else B)
                 in updateMatchInState target
                      (write_slot destSlotLetter winnerTeamId winnerSide mt) prev
             | _ \<Rightarrow> prev)
      | _ \<Rightarrow> prev)"

text \<open>
  \<open>updatePlayInGame3LoserInState\<close> reads the \<open>matches\<close> of the render that created
  the handler (its first argument here) to find game 3, and then updates the current
  state.  \<open>findGame3\<close> is its chain of early returns: the match \<open>game3\<close> it ends with,
  or \<open>None\<close> where the function returns without an update.
\<close>

definition findGame3 :: "matches_by_conf_round option \<Rightarrow> match \<Rightarrow> match option" where
  "findGame3 rendered mt =
     (if round mt \<noteq> 0 \<or> slot mt \<noteq> 2 then None
      else
        (case rendered of
           None \<Rightarrow> None
         | Some ms \<Rightarrow>
             (case map_of ms (conference mt) of
                None \<Rightarrow> None
              | Some rounds \<Rightarrow>
                  (case map_of rounds ''0'' of
                     None \<Rightarrow> None
                   | Some roundMatches \<Rightarrow>
                       find (\<lambda>m. round m = 0 \<and> slot m = 3) roundMatches))))"

definition updatePlayInGame3LoserInState ::
  "matches_by_conf_round option \<Rightarrow> match \<Rightarrow> side \<Rightarrow> string \<Rightarrow>
   matches_by_conf_round option \<Rightarrow> matches_by_conf_round option"
where
  "updatePlayInGame3LoserInState rendered mt loserSide loserTeamId prev =
     (case findGame3 rendered mt of
        None \<Rightarrow> prev
      | Some game3 \<Rightarrow>
          updateMatchInState (id_m game3) (write_slot B loserTeamId loserSide mt) prev)"

section \<open>Handlers\<close>

text \<open>The series length that \<open>handleSetWinner\<close> records.\<close>

definition gamesToRecord :: "(string \<rightharpoonup> int) \<Rightarrow> match \<Rightarrow> string \<Rightarrow> int" where
  "gamesToRecord pendingG mt winnerTeamId =
     (if round mt = 0 then 1
      else
        let pending = pendingG (id_m mt);
            existing = (if predicted_winner mt = Some winnerTeamId
                        then predicted_winner_games mt else None)
        in (case existing of
              Some g \<Rightarrow> g
            | None \<Rightarrow> (case pending of Some g \<Rightarrow> g | None \<Rightarrow> 4)))"

text \<open>
  The synchronous part of \<open>handleSetWinner\<close>, up to the request: \<open>None\<close> when a guard
  returns early, otherwise the state after the optimistic updates together with the
  winner and the series length that go into the request.
\<close>

definition setWinnerLocal ::
  "page_env \<Rightarrow> page_state \<Rightarrow> match \<Rightarrow> side \<Rightarrow> (page_state \<times> string \<times> int) option"
where
  "setWinnerLocal env st mt team =
     (if \<not> truthy (bracketId env) \<or> matches st = None \<or> \<not> canEdit env st then None
      else if \<not> truthy (team_a mt) \<or> \<not> truthy (team_b mt) then None
      else
        (case (team_a mt, team_b mt) of
           (Some ta, Some tb) \<Rightarrow>
             let winnerTeamId = (if team = A then ta else tb);
                 loserTeamId = (if team = A then tb else ta);
                 winnerSide = team;
                 loserSide = (if team = A then B else A);
                 games = gamesToRecord (pendingGames st) mt winnerTeamId;
                 ms1 = updateMatchInState (id_m mt)
                         (\<lambda>m. m\<lparr>predicted_winner := Some winnerTeamId,
                                predicted_winner_games := Some games\<rparr>)
                         (matches st);
                 ms2 = updateNextMatchSlotInState mt winnerSide winnerTeamId ms1;
                 ms3 = updatePlayInGame3LoserInState (matches st) mt loserSide loserTeamId ms2
             in Some (st\<lparr>matches := ms3,
                         pendingGames := (pendingGames st)(id_m mt := None)\<rparr>,
                      winnerTeamId, games)
         | _ \<Rightarrow> None))"

definition match_path :: "string \<Rightarrow> match \<Rightarrow> string" where
  "match_path bid mt = ''/bracket/'' @ bid @ ''/match/'' @ id_m mt"

text \<open>
  Every handler returns the final state and the PATCH requests it sent.  The state in
  which \<open>updatingMatchId\<close> is set lasts only while the request is pending.
\<close>

definition handleSetWinner ::
  "page_env \<Rightarrow> api \<Rightarrow> page_state \<Rightarrow> match \<Rightarrow> side \<Rightarrow> page_state \<times> patch_call list"
where
  "handleSetWinner env backend st mt team =
     (case setWinnerLocal env st mt team of
        None \<Rightarrow> (st, [])
      | Some (st1, winnerTeamId, games) \<Rightarrow>
          (case bracketId env of
             None \<Rightarrow> (st, [])
           | Some bid \<Rightarrow>
               let st2 = st1\<lparr>updatingMatchId := Some (id_m mt), error := None\<rparr>;
                   call = \<lparr>path = match_path bid mt,
                           body = SetWinnerBody winnerTeamId games\<rparr>;
                   st3 = (case patch backend (path call) (body call) of
                            Inr res \<Rightarrow> st2
                          | Inl err \<Rightarrow>
                              loadBracket env backend True
                                (st2\<lparr>error :=
                                   Some (message_or err ''Failed to update match'')\<rparr>))
               in (st3\<lparr>updatingMatchId := None\<rparr>, [call])))"

definition undoLocal :: "page_env \<Rightarrow> page_state \<Rightarrow> match \<Rightarrow> page_state option" where
  "undoLocal env st mt =
     (if \<not> truthy (bracketId env) \<or> matches st = None then None
      else if \<not> (isAdmin env \<and> isMasterBracket st) then None
      else
        Some (st\<lparr>matches :=
                   updateMatchInState (id_m mt)
                     (\<lambda>m. m\<lparr>predicted_winner := None, predicted_winner_games := None\<rparr>)
                     (matches st),
                 pendingGames := (pendingGames st)(id_m mt := None)\<rparr>))"

definition handleUndo ::
  "page_env \<Rightarrow> api \<Rightarrow> page_state \<Rightarrow> match \<Rightarrow> page_state \<times> patch_call list"
where
  "handleUndo env backend st mt =
     (case undoLocal env st mt of
        None \<Rightarrow> (st, [])
      | Some st1 \<Rightarrow>
          (case bracketId env of
             None \<Rightarrow> (st, [])
           | Some bid \<Rightarrow>
               let st2 = st1\<lparr>updatingMatchId := Some (id_m mt), error := None\<rparr>;
                   call = \<lparr>path = match_path bid mt, body = UndoBody\<rparr>;
                   st3 = (case patch backend (path call) (body call) of
                            Inr res \<Rightarrow> loadBracket env backend True st2
                          | Inl err \<Rightarrow>
                              loadBracket env backend True
                                (st2\<lparr>error :=
                                   Some (message_or err ''Failed to undo prediction'')\<rparr>))
               in (st3\<lparr>updatingMatchId := None\<rparr>, [call])))"

text \<open>
  The synchronous part of \<open>handleSelectGames\<close>: rejected by a guard, stored as a pending
  selection, or written to the match (the recorded winner goes into the request).
\<close>

datatype select_games_step =
  Rejected
  | PendingOnly page_state
  | Recorded page_state string

definition selectGamesLocal ::
  "page_env \<Rightarrow> page_state \<Rightarrow> match \<Rightarrow> int \<Rightarrow> select_games_step"
where
  "selectGamesLocal env st mt gamesValue =
     (if \<not> truthy (bracketId env) \<or> matches st = None \<or> \<not> canEdit env st then Rejected
      else if round mt = 0 then Rejected
      else
        (case predicted_winner mt of
           None \<Rightarrow> PendingOnly (st\<lparr>pendingGames := (pendingGames st)(id_m mt \<mapsto> gamesValue)\<rparr>)
         | Some w \<Rightarrow>
             if w = []
             then PendingOnly (st\<lparr>pendingGames := (pendingGames st)(id_m mt \<mapsto> gamesValue)\<rparr>)
             else
               Recorded
                 (st\<lparr>matches :=
                       updateMatchInState (id_m mt)
                         (\<lambda>m. m\<lparr>predicted_winner := predicted_winner m,
                                predicted_winner_games := Some gamesValue\<rparr>)
                         (matches st)\<rparr>)
                 w))"

definition handleSelectGames ::
  "page_env \<Rightarrow> api \<Rightarrow> page_state \<Rightarrow> match \<Rightarrow> int \<Rightarrow> page_state \<times> patch_call list"
where
  "handleSelectGames env backend st mt gamesValue =
     (case selectGamesLocal env st mt gamesValue of
        Rejected \<Rightarrow> (st, [])
      | PendingOnly st1 \<Rightarrow> (st1, [])
      | Recorded st1 w \<Rightarrow>
          (case bracketId env of
             None \<Rightarrow> (st, [])
           | Some bid \<Rightarrow>
               let st2 = st1\<lparr>updatingMatchId := Some (id_m mt), error := None\<rparr>;
                   call = \<lparr>path = match_path bid mt, body = SetWinnerBody w gamesValue\<rparr>;
                   st3 = (case patch backend (path call) (body call) of
                            Inr res \<Rightarrow> st2
                          | Inl err \<Rightarrow>
                              loadBracket env backend True
                                (st2\<lparr>error :=
                                   Some (message_or err ''Failed to update games'')\<rparr>))
               in (st3\<lparr>updatingMatchId := None\<rparr>, [call])))"

section \<open>Saving\<close>

text \<open>One iteration of the innermost loop of \<open>allDecided\<close>: does match \<open>m\<close> let the loop go on?\<close>

definition decided :: "match \<Rightarrow> bool" where
  "decided m =
     (if \<not> truthy (team_a m) \<or> \<not> truthy (team_b m) then True
      else if \<not> truthy (predicted_winner m) then False
      else if round m > 0 \<and> predicted_winner_games m = None then False
      else True)"

definition allDecided :: "matches_by_conf_round option \<Rightarrow> bool" where
  "allDecided msopt =
     (case msopt of
        None \<Rightarrow> False
      | Some ms \<Rightarrow>
          if length (map fst ms) = 0 then False
          else list_all (\<lambda>(conf, roundsObj).
                 list_all (\<lambda>(roundKey, roundMatches). list_all decided roundMatches) roundsObj)
               ms)"

definition trimmedName :: "page_state \<Rightarrow> string" where
  "trimmedName st = trim (bracketName st)"

definition canSave :: "page_env \<Rightarrow> page_state \<Rightarrow> bool" where
  "canSave env st =
     (canEdit env st \<and> allDecided (matches st) \<and> trimmedName st \<noteq> [] \<and> \<not> saving st
      \<and> \<not> savingLockedForUser env st)"

text \<open>
  \<open>handleSaveBracket\<close>.  The timer that hides the save message after four seconds is
  not part of the model.
\<close>

definition handleSaveBracket ::
  "page_env \<Rightarrow> api \<Rightarrow> page_state \<Rightarrow> page_state \<times> patch_call list"
where
  "handleSaveBracket env backend st =
     (case bracketId env of
        None \<Rightarrow> (st, [])
      | Some bid \<Rightarrow>
          if bid = [] then (st, [])
          else if \<not> canSave env st then (st, [])
          else if savingLockedForUser env st
          then (st\<lparr>error := Some ''Brackets are locked; you can no longer save.''\<rparr>, [])
          else
            let nameToSave = trimmedName st in
            if nameToSave = []
            then (st\<lparr>error := Some ''Please enter a bracket name before saving.''\<rparr>, [])
            else
              let st1 = st\<lparr>saving := True, saveMessage := None, error := None\<rparr>;
                  call = \<lparr>path = ''/bracket/'' @ bid @ ''/save'', body = SaveBody nameToSave\<rparr>;
                  st2 = (case patch backend (path call) (body call) of
                           Inr res \<Rightarrow>
                             st1\<lparr>bracket :=
                                   (case bracket st1 of
                                      None \<Rightarrow> None
                                    | Some prev \<Rightarrow>
                                        Some (prev\<lparr>name :=
                                                      (case res_name res of
                                                         Defined n \<Rightarrow> Defined n
                                                       | _ \<Rightarrow> Defined nameToSave),
                                                    saved_at :=
                                                      (case res_saved_at res of
                                                         Defined t \<Rightarrow> Defined t
                                                       | _ \<Rightarrow> saved_at prev),
                                                    is_done := True\<rparr>)),
                                 saveMessage := Some ''Bracket saved!''\<rparr>
                         | Inl err \<Rightarrow>
                             st1\<lparr>error := Some (message_or err ''Failed to save bracket'')\<rparr>)
              in (st2\<lparr>saving := False\<rparr>, [call]))"

section \<open>The nodes of a graph\<close>

definition all_matches :: "matches_by_conf_round \<Rightarrow> match list" where
  "all_matches ms = concat (map (\<lambda>(conf, rounds). concat (map snd rounds)) ms)"

text \<open>The node with a given id, as a reader of the graph finds it.\<close>

definition node :: "matches_by_conf_round \<Rightarrow> string \<Rightarrow> match option" where
  "node ms i = find (\<lambda>m. id_m m = i) (all_matches ms)"

definition map_graph :: "(match \<Rightarrow> match) \<Rightarrow> matches_by_conf_round \<Rightarrow> matches_by_conf_round" where
  "map_graph g ms = map (\<lambda>(conf, rounds). (conf, map (\<lambda>(roundKey, l). (roundKey, map g l)) rounds)) ms"

definition ids_distinct :: "matches_by_conf_round \<Rightarrow> bool" where
  "ids_distinct ms = distinct (map id_m (all_matches ms))"

text \<open>The graph that a local mutation leaves, and a node of a graph that may not be loaded.\<close>

definition graph_after :: "(page_state \<times> string \<times> int) option \<Rightarrow> matches_by_conf_round option" where
  "graph_after r = (case r of None \<Rightarrow> None | Some (st', w, g) \<Rightarrow> matches st')"

definition node_in :: "matches_by_conf_round option \<Rightarrow> string \<Rightarrow> match option" where
  "node_in g i = (case g of None \<Rightarrow> None | Some ms \<Rightarrow> node ms i)"

text \<open>
  A click on a team button.  The buttons are rendered from the current graph, one pair
  per match \<open>m\<close>, with \<open>onClick = () => handleSetWinner(m, "A")\<close> (or \<open>"B"\<close>): the
  handler receives the node that the graph holds at the time of the click.  \<open>clickTeam\<close>
  is the local mutation of that call; the state stays as it is when the graph is not
  loaded, holds no match with the id, or a guard of the handler returns early.
\<close>

definition clickTeam :: "page_env \<Rightarrow> page_state \<Rightarrow> string \<Rightarrow> side \<Rightarrow> page_state" where
  "clickTeam env st i team =
     (case matches st of
        None \<Rightarrow> st
      | Some ms \<Rightarrow>
          (case node ms i of
             None \<Rightarrow> st
           | Some m \<Rightarrow>
               (case setWinnerLocal env st m team of
                  None \<Rightarrow> st
                | Some (st', w, g) \<Rightarrow> st')))"

section \<open>Node-wise reading of the optimistic updates\<close>

text \<open>
  Each optimistic update maps one function over every node of the graph.  These are the
  functions, used to state and prove what the handlers do to a single node.
\<close>

definition upd_if :: "string \<Rightarrow> (match \<Rightarrow> match) \<Rightarrow> match \<Rightarrow> match" where
  "upd_if i f m = (if id_m m = i then f m else m)"

definition own_step :: "match \<Rightarrow> string \<Rightarrow> int \<Rightarrow> match \<Rightarrow> match" where
  "own_step mt w g =
     upd_if (id_m mt) (\<lambda>m. m\<lparr>predicted_winner := Some w, predicted_winner_games := Some g\<rparr>)"

definition fwd_step :: "match \<Rightarrow> side \<Rightarrow> string \<Rightarrow> match \<Rightarrow> match" where
  "fwd_step mt s w =
     (case next_match_id mt of
        Defined t \<Rightarrow>
          if t = [] then (\<lambda>m. m)
          else (case next_slot mt of
                  Defined letter \<Rightarrow> upd_if t (write_slot (if letter = SlotA then A else B) w s mt)
                | _ \<Rightarrow> (\<lambda>m. m))
      | _ \<Rightarrow> (\<lambda>m. m))"

definition play_step ::
  "matches_by_conf_round option \<Rightarrow> match \<Rightarrow> side \<Rightarrow> string \<Rightarrow> match \<Rightarrow> match" where
  "play_step rendered mt s l =
     (case findGame3 rendered mt of
        None \<Rightarrow> (\<lambda>m. m)
      | Some game3 \<Rightarrow> upd_if (id_m game3) (write_slot B l s mt))"

definition other :: "side \<Rightarrow> side" where
  "other s = (if s = A then B else A)"

section \<open>An example bracket\<close>

text \<open>
  A small graph for evaluating the handlers: an eastern first-round series \<open>A\<close> that
  feeds slot A of the semifinal \<open>B\<close>, and the western play-in games 2 and 3.
\<close>

definition tbd :: match where
  "tbd = \<lparr>id_m = [], bracket_id = ''bk'', conference = [], round = 0, slot = 0,
           team_a = None, team_b = None, predicted_winner = None,
           predicted_winner_games = None, next_match_id = Undefined, next_slot = Undefined,
           team_a_name = Undefined, team_b_name = Undefined,
           team_a_code = Undefined, team_b_code = Undefined,
           team_a_logo_url = Undefined, team_b_logo_url = Undefined,
           team_a_primary_color = Undefined, team_a_secondary_color = Undefined,
           team_b_primary_color = Undefined, team_b_secondary_color = Undefined\<rparr>"

definition ex_A :: match where
  "ex_A = tbd\<lparr>id_m := ''A'', conference := ''east'', round := 1, slot := 4,
              team_a := Some ''BOS'', team_b := Some ''MIA'',
              next_match_id := Defined ''B'', next_slot := Defined SlotA,
              team_a_name := Defined ''Celtics'', team_b_name := Defined ''Heat'',
              team_a_code := Defined ''BOS'', team_b_code := Defined ''MIA'',
              team_a_logo_url := Null,
              team_a_primary_color := Defined ''#007A33'',
              team_a_secondary_color := Defined ''#BA9653''\<rparr>"

definition ex_B :: match where
  "ex_B = tbd\<lparr>id_m := ''B'', conference := ''east'', round := 2, slot := 2,
              team_b := Some ''NYK'', team_b_name := Defined ''Knicks'',
              predicted_winner := Some ''NYK'', predicted_winner_games := Some 6\<rparr>"

definition ex_G2 :: match where
  "ex_G2 = tbd\<lparr>id_m := ''G2'', conference := ''west'', round := 0, slot := 2,
               team_a := Some ''LAL'', team_b := Some ''GSW'',
               next_match_id := Null, next_slot := Null,
               team_a_name := Defined ''Lakers'', team_b_name := Defined ''Warriors'',
               team_a_code := Defined ''LAL'', team_b_code := Defined ''GSW'',
               team_b_logo_url := Defined ''/logos/gsw.png'',
               team_b_primary_color := Defined ''#1D428A'',
               team_b_secondary_color := Defined ''#FFC72C''\<rparr>"

definition ex_G3 :: match where
  "ex_G3 = tbd\<lparr>id_m := ''G3'', conference := ''west'', round := 0, slot := 3,
               team_a := Some ''SAC'', team_b := Some ''DAL'',
               team_a_name := Defined ''Kings'', team_b_name := Defined ''Mavericks'',
               predicted_winner := Some ''DAL'', predicted_winner_games := Some 1\<rparr>"

definition ex_graph :: matches_by_conf_round where
  "ex_graph = [(''east'', [(''1'', [ex_A]), (''2'', [ex_B])]),
               (''west'', [(''0'', [ex_G2, ex_G3])])]"

definition ex_bracket :: bracket where
  "ex_bracket = \<lparr>id_b = ''bk'', user_id = ''u1'', is_done = False, saved_at = Null,
                  name = Defined ''My picks'', is_owner = Defined True,
                  is_master = Undefined, isMaster = Undefined\<rparr>"

definition ex_env :: page_env where
  "ex_env = \<lparr>bracketId = Some ''bk'', user = Some \<lparr>is_admin = Undefined\<rparr>\<rparr>"

definition ex_state :: page_state where
  "ex_state = \<lparr>bracket = Some ex_bracket, matches = Some ex_graph, loading = False,
                saving = False, updatingMatchId = None, error = None,
                bracketName = ''My picks'', saveMessage = None, playoffsLocked = False,
                pendingGames = [''A'' \<mapsto> 5]\<rparr>"

definition ex_response :: patch_response where
  "ex_response = \<lparr>res_name = Undefined, res_saved_at = Undefined\<rparr>"

text \<open>
  A backend that accepts every request, and one that cannot be reached.
\<close>

definition ex_accepting :: api where
  "ex_accepting = \<lparr>get = (\<lambda>p. Inr \<lparr>resp_bracket = ex_bracket, resp_matches = ex_graph\<rparr>),
                    patch = (\<lambda>p b. Inr ex_response)\<rparr>"

definition ex_offline :: api where
  "ex_offline = \<lparr>get = (\<lambda>p. Inl \<lparr>message = ''Failed to fetch''\<rparr>),
                  patch = (\<lambda>p b. Inl \<lparr>message = ''Failed to fetch''\<rparr>)\<rparr>"

text \<open>
  A backend that rejects every PATCH and still serves the bracket; in its graph the
  semifinal \<open>B\<close> has Miami in slot A.
\<close>

definition ex_server_graph :: matches_by_conf_round where
  "ex_server_graph = [(''east'', [(''1'', [ex_A]), (''2'', [ex_B\<lparr>team_a := Some ''MIA''\<rparr>])])]"

definition ex_server :: api where
  "ex_server = \<lparr>get = (\<lambda>p. Inr \<lparr>resp_bracket = ex_bracket, resp_matches = ex_server_graph\<rparr>),
                 patch = (\<lambda>p b. Inl \<lparr>message = ''Request failed''\<rparr>)\<rparr>"

text \<open>Variations of the example: pending selections, a series that already has a pick.\<close>

definition ex_pending_G2 :: page_state where
  "ex_pending_G2 = ex_state\<lparr>pendingGames := [''G2'' \<mapsto> 7]\<rparr>"

definition ex_no_pending :: page_state where
  "ex_no_pending = ex_state\<lparr>pendingGames := Map.empty\<rparr>"

definition ex_A_picked :: match where
  "ex_A_picked = ex_A\<lparr>predicted_winner := Some ''BOS'', predicted_winner_games := Some 7\<rparr>"

text \<open>The semifinal once both participants are known, with the Knicks picked in six.\<close>

definition ex_B_ready :: match where
  "ex_B_ready = ex_B\<lparr>team_a := Some ''BOS''\<rparr>"

definition ex_graph_ready :: matches_by_conf_round where
  "ex_graph_ready = [(''east'', [(''1'', [ex_A]), (''2'', [ex_B_ready])])]"

definition ex_state_ready :: page_state where
  "ex_state_ready = ex_state\<lparr>matches := Some ex_graph_ready\<rparr>"

text \<open>
  A graph in which every match with two participants is decided; \<open>B\<close> still waits for
  a participant.
\<close>

definition ex_decided :: matches_by_conf_round where
  "ex_decided =
     [(''east'', [(''1'', [ex_A_picked]), (''2'', [ex_B])]),
      (''west'', [(''0'', [ex_G2\<lparr>predicted_winner := Some ''LAL''\<rparr>])])]"

text \<open>An admin looking at the master bracket.\<close>

definition ex_master :: page_state where
  "ex_master = ex_state\<lparr>bracket := Some (ex_bracket\<lparr>is_owner := Defined False, is_master := Defined True\<rparr>)\<rparr>"

definition ex_admin :: page_env where
  "ex_admin = \<lparr>bracketId = Some ''bk'', user = Some \<lparr>is_admin = Defined True\<rparr>\<rparr>"

section \<open>Lemmas about the graph\<close>

lemma updateMatchInState_Some:
  "updateMatchInState i f (Some p) = Some (map_graph (\<lambda>m. if id_m m = i then f m else m) p)"
  by (simp add: updateMatchInState_def map_graph_def)

lemma updateMatchInState_None: "updateMatchInState i f None = None"
  by (simp add: updateMatchInState_def)

lemma all_matches_map_graph: "all_matches (map_graph g p) = map g (all_matches p)"
  by (induction p) (auto simp: all_matches_def map_graph_def map_concat o_def split_def)

lemma find_map_pres:
  "(\<And>x. P (g x) = P x) \<Longrightarrow> find P (map g xs) = map_option g (find P xs)"
  by (induction xs) auto

lemma node_map_graph:
  "(\<And>m. id_m (g m) = id_m m) \<Longrightarrow> node (map_graph g p) i = map_option g (node p i)"
  by (simp add: node_def all_matches_map_graph find_map_pres)

lemma map_of_map_graph:
  "map_of (map_graph g p) c = map_option (map (\<lambda>(k, l). (k, map g l))) (map_of p c)"
  by (induction p) (auto simp: map_graph_def)

lemma map_of_rounds_map:
  "map_of (map (\<lambda>(k, l). (k, map g l)) rs) k = map_option (map g) (map_of rs k)"
  by (induction rs) auto

lemma findGame3_map_graph:
  assumes "\<And>m. round (g m) = round m" "\<And>m. slot (g m) = slot m"
    and "round mt' = round mt" "slot mt' = slot mt" "conference mt' = conference mt"
  shows "findGame3 (Some (map_graph g p)) mt' = map_option g (findGame3 (Some p) mt)"
  using assms
  by (auto simp: findGame3_def map_of_map_graph map_of_rounds_map find_map_pres
      split: option.splits)

lemma map_of_all_matches:
  "map_of p c = Some rs \<Longrightarrow> map_of rs k = Some l \<Longrightarrow> set l \<subseteq> set (all_matches p)"
  by (force simp: all_matches_def dest!: map_of_SomeD)

lemma findGame3_SomeD:
  assumes "findGame3 (Some p) mt = Some g3"
  shows "g3 \<in> set (all_matches p) \<and> round g3 = 0 \<and> slot g3 = 3 \<and> round mt = 0 \<and> slot mt = 2"
proof -
  from assms obtain rs l where a: "map_of p (conference mt) = Some rs" "map_of rs ''0'' = Some l"
    "find (\<lambda>m. round m = 0 \<and> slot m = 3) l = Some g3" "round mt = 0" "slot mt = 2"
    by (auto simp: findGame3_def split: option.splits if_splits)
  from a(3) have "g3 \<in> set l \<and> round g3 = 0 \<and> slot g3 = 3"
    by (auto simp: find_Some_iff)
  with map_of_all_matches[OF a(1,2)] a(4,5) show ?thesis by auto
qed

lemma node_SomeD: "node p i = Some n \<Longrightarrow> n \<in> set (all_matches p) \<and> id_m n = i"
  by (auto simp: node_def find_Some_iff)

lemma node_distinct:
  "ids_distinct p \<Longrightarrow> n \<in> set (all_matches p) \<Longrightarrow> node p (id_m n) = Some n"
  unfolding node_def ids_distinct_def
  by (induction "all_matches p" arbitrary: p) (auto simp: find_Some_iff in_set_conv_nth distinct_conv_nth)

lemma map_graph_ident: "map_graph (\<lambda>m. m) p = p"
  by (induction p) (auto simp: map_graph_def split_def map_idI)

lemma map_graph_comp: "map_graph f (map_graph g p) = map_graph (\<lambda>m. f (g m)) p"
  by (simp add: map_graph_def split_def o_def)

lemma updateMatchInState_upd_if:
  "updateMatchInState i f (Some p) = Some (map_graph (upd_if i f) p)"
proof -
  have "upd_if i f = (\<lambda>m. if id_m m = i then f m else m)"
    by (rule ext) (simp add: upd_if_def)
  then show ?thesis by (simp add: updateMatchInState_Some)
qed

lemma updateNext_Some:
  "updateNextMatchSlotInState mt s w (Some p) = Some (map_graph (fwd_step mt s w) p)"
  by (simp add: updateNextMatchSlotInState_def fwd_step_def updateMatchInState_upd_if
      map_graph_ident Let_def split: optional.splits)

lemma updatePlayIn_Some:
  "updatePlayInGame3LoserInState r mt s l (Some p) = Some (map_graph (play_step r mt s l) p)"
  by (simp add: updatePlayInGame3LoserInState_def play_step_def updateMatchInState_upd_if
      map_graph_ident split: option.splits)

lemma setWinnerLocal_Some:
  assumes "truthy (bracketId env)" "canEdit env st" "matches st = Some ms"
    and "team_a mt = Some ta" "ta \<noteq> []" "team_b mt = Some tb" "tb \<noteq> []"
    and "w = (if team = A then ta else tb)" "l = (if team = A then tb else ta)"
    and "g = gamesToRecord (pendingGames st) mt w"
  shows "setWinnerLocal env st mt team =
     Some (st\<lparr>matches :=
                Some (map_graph (\<lambda>n. play_step (Some ms) mt (other team) l
                                        (fwd_step mt team w (own_step mt w g n))) ms),
              pendingGames := (pendingGames st)(id_m mt := None)\<rparr>, w, g)"
  using assms
  by (simp add: setWinnerLocal_def truthy_def Let_def updateMatchInState_upd_if
      updateNext_Some updatePlayIn_Some map_graph_comp own_step_def other_def)

lemma setWinnerLocal_None:
  "\<not> truthy (team_a mt) \<or> \<not> truthy (team_b mt) \<Longrightarrow> setWinnerLocal env st mt team = None"
  by (auto simp: setWinnerLocal_def)

lemma setWinnerLocal_SomeD:
  assumes "setWinnerLocal env st mt team = Some r"
  shows "truthy (bracketId env) \<and> canEdit env st \<and> matches st \<noteq> None
     \<and> truthy (team_a mt) \<and> truthy (team_b mt)"
  using assms by (auto simp: setWinnerLocal_def split: if_splits)

lemma id_own_step [simp]: "id_m (own_step mt w g n) = id_m n"
  by (simp add: own_step_def upd_if_def)

lemma id_write_slot [simp]: "id_m (write_slot d t s src n) = id_m n"
  by (simp add: write_slot_def)

lemma id_fwd_step [simp]: "id_m (fwd_step mt s w n) = id_m n"
  by (simp add: fwd_step_def upd_if_def split: optional.splits)

lemma id_play_step [simp]: "id_m (play_step r mt s l n) = id_m n"
  by (simp add: play_step_def upd_if_def split: option.splits)

lemma ids_distinct_eq:
  "ids_distinct p \<Longrightarrow> a \<in> set (all_matches p) \<Longrightarrow> b \<in> set (all_matches p) \<Longrightarrow>
   id_m a = id_m b \<Longrightarrow> a = b"
  unfolding ids_distinct_def by (metis distinct_map inj_on_def)

lemma play_step_other:
  assumes "ids_distinct p" "mt \<in> set (all_matches p)" "id_m n = id_m mt"
  shows "play_step (Some p) mt s l n = n"
proof (cases "findGame3 (Some p) mt")
  case None
  then show ?thesis by (simp add: play_step_def)
next
  case (Some g3)
  from findGame3_SomeD[OF Some] have g: "g3 \<in> set (all_matches p)" "slot g3 = 3" "slot mt = 2"
    by auto
  have "id_m g3 \<noteq> id_m mt"
  proof
    assume "id_m g3 = id_m mt"
    with ids_distinct_eq[OF assms(1) g(1) assms(2)] have "g3 = mt" by simp
    with g(2,3) show False by simp
  qed
  with Some assms(3) show ?thesis by (simp add: play_step_def upd_if_def)
qed

lemma fwd_step_other:
  "next_match_id mt \<noteq> Defined (id_m n) \<Longrightarrow> fwd_step mt s w n = n"
  by (auto simp: fwd_step_def upd_if_def split: optional.splits)

lemmas ex_defs = tbd_def ex_A_def ex_B_def ex_G2_def ex_G3_def ex_graph_def ex_bracket_def
  ex_env_def ex_state_def

lemma ex_graph_nodes: "all_matches ex_graph = [ex_A, ex_B, ex_G2, ex_G3]"
  by (simp add: all_matches_def ex_graph_def)

lemma ex_graph_distinct: "ids_distinct ex_graph"
  by (simp add: ids_distinct_def ex_graph_nodes) (simp add: ex_defs)

lemma ex_canEdit: "canEdit ex_env ex_state"
  by (simp add: canEdit_def isOwner_def ex_state_def ex_bracket_def truthy_bool_def)

lemma ex_bracketId: "truthy (bracketId ex_env)"
  by (simp add: truthy_def ex_env_def)

lemma node_exists:
  "n \<in> set (all_matches p) \<Longrightarrow> \<exists>n0. node p (id_m n) = Some n0 \<and> id_m n0 = id_m n"
  unfolding node_def
  by (cases "find (\<lambda>m. id_m m = id_m n) (all_matches p)") (auto simp: find_None_iff find_Some_iff)

lemma findGame3_eq:
  "round mt = 0 \<Longrightarrow> slot mt = 2 \<Longrightarrow> map_of ms (conference mt) = Some rounds \<Longrightarrow>
   map_of rounds ''0'' = Some roundMatches \<Longrightarrow>
   findGame3 (Some ms) mt = find (\<lambda>m. round m = 0 \<and> slot m = 3) roundMatches"
  by (simp add: findGame3_def)

lemma round_steps [simp]:
  "round (own_step mt w g n) = round n" "round (fwd_step mt s w n) = round n"
  "round (play_step r mt s l n) = round n"
  by (simp_all add: own_step_def fwd_step_def play_step_def upd_if_def write_slot_def
      split: optional.splits option.splits)

lemma slot_steps [simp]:
  "slot (own_step mt w g n) = slot n" "slot (fwd_step mt s w n) = slot n"
  "slot (play_step r mt s l n) = slot n"
  by (simp_all add: own_step_def fwd_step_def play_step_def upd_if_def write_slot_def
      split: optional.splits option.splits)

lemma conference_steps [simp]:
  "conference (own_step mt w g n) = conference n" "conference (fwd_step mt s w n) = conference n"
  "conference (play_step r mt s l n) = conference n"
  by (simp_all add: own_step_def fwd_step_def play_step_def upd_if_def write_slot_def
      split: optional.splits option.splits)

lemma write_slot_B:
  "team_b (write_slot B t s src n) = Some t"
  "team_b_name (write_slot B t s src n) = or_null (src_name s src)"
  "team_b_code (write_slot B t s src n) = or_null (src_code s src)"
  "team_b_logo_url (write_slot B t s src n) = or_null (src_logo s src)"
  "team_b_primary_color (write_slot B t s src n) = or_null (src_primary s src)"
  "team_b_secondary_color (write_slot B t s src n) = or_null (src_secondary s src)"
  "predicted_winner (write_slot d t s src n) = None"
  "predicted_winner_games (write_slot d t s src n) = None"
  by (simp_all add: write_slot_def)

lemma write_slot_A:
  "team_a (write_slot A t s src n) = Some t"
  "team_a_name (write_slot A t s src n) = or_null (src_name s src)"
  "team_a_code (write_slot A t s src n) = or_null (src_code s src)"
  "team_a_logo_url (write_slot A t s src n) = or_null (src_logo s src)"
  "team_a_primary_color (write_slot A t s src n) = or_null (src_primary s src)"
  "team_a_secondary_color (write_slot A t s src n) = or_null (src_secondary s src)"
  by (simp_all add: write_slot_def)

lemma fwd_step_target:
  assumes "next_match_id mt = Defined t" "t \<noteq> []" "next_slot mt = Defined letter" "id_m n = t"
  shows "fwd_step mt s w n = write_slot (if letter = SlotA then A else B) w s mt n"
  using assms by (simp add: fwd_step_def upd_if_def)

lemma fwd_step_nolink:
  assumes "\<not> truthy_opt (next_match_id mt) \<or> next_slot mt = Undefined \<or> next_slot mt = Null"
  shows "fwd_step mt s w n = n"
  using assms by (auto simp: fwd_step_def truthy_opt_def split: optional.splits)

lemma fwd_step_absent:
  assumes "next_match_id mt = Defined t" "id_m n \<noteq> t"
  shows "fwd_step mt s w n = n"
  using assms by (auto simp: fwd_step_def upd_if_def split: optional.splits)

lemma play_step_miss:
  "Some (id_m n) \<noteq> map_option id_m (findGame3 r mt) \<Longrightarrow> play_step r mt s l n = n"
  by (auto simp: play_step_def upd_if_def split: option.splits)

lemma own_step_miss: "id_m n \<noteq> id_m mt \<Longrightarrow> own_step mt w g n = n"
  by (simp add: own_step_def upd_if_def)

lemma node_None_iff: "node p i = None \<longleftrightarrow> (\<forall>n \<in> set (all_matches p). id_m n \<noteq> i)"
  by (auto simp: node_def find_None_iff)

lemma play_step_A:
  "team_a (play_step r mt s l n) = team_a n"
  "team_a_name (play_step r mt s l n) = team_a_name n"
  "team_a_code (play_step r mt s l n) = team_a_code n"
  "team_a_logo_url (play_step r mt s l n) = team_a_logo_url n"
  "team_a_primary_color (play_step r mt s l n) = team_a_primary_color n"
  "team_a_secondary_color (play_step r mt s l n) = team_a_secondary_color n"
  by (simp_all add: play_step_def upd_if_def write_slot_def split: option.splits)

lemma play_step_cleared:
  "predicted_winner n = None \<Longrightarrow> predicted_winner (play_step r mt s l n) = None"
  "predicted_winner_games n = None \<Longrightarrow> predicted_winner_games (play_step r mt s l n) = None"
  by (simp_all add: play_step_def upd_if_def write_slot_def split: option.splits)

lemma ex_nodes:
  "node ex_graph ''A'' = Some ex_A" "node ex_graph ''B'' = Some ex_B"
  "node ex_graph ''G2'' = Some ex_G2" "node ex_graph ''G3'' = Some ex_G3"
  by (simp_all add: node_def ex_graph_nodes) (simp_all add: ex_defs)

lemma ex_findGame3: "findGame3 (Some ex_graph) ex_G2 = Some ex_G3"
  by (simp add: findGame3_def ex_graph_def) (simp add: ex_defs)

lemma ex_pick_A:
  "setWinnerLocal ex_env ex_state ex_A A =
     Some (ex_state\<lparr>matches :=
                Some (map_graph (\<lambda>n. play_step (Some ex_graph) ex_A (other A) ''MIA''
                                        (fwd_step ex_A A ''BOS'' (own_step ex_A ''BOS'' 5 n))) ex_graph),
              pendingGames := (pendingGames ex_state)(id_m ex_A := None)\<rparr>, ''BOS'', 5)"
proof -
  have m: "matches ex_state = Some ex_graph" by (simp add: ex_state_def)
  have t: "team_a ex_A = Some ''BOS''" "team_b ex_A = Some ''MIA''"
    by (simp_all add: ex_A_def)
  have g: "5 = gamesToRecord (pendingGames ex_state) ex_A ''BOS''"
    by (simp add: gamesToRecord_def ex_A_def tbd_def ex_state_def)
  show ?thesis
    by (rule setWinnerLocal_Some[OF ex_bracketId ex_canEdit m t(1) _ t(2) _ _ _ g]) simp_all
qed

lemma ex_pick_G2:
  "setWinnerLocal ex_env ex_state ex_G2 A =
     Some (ex_state\<lparr>matches :=
                Some (map_graph (\<lambda>n. play_step (Some ex_graph) ex_G2 (other A) ''GSW''
                                        (fwd_step ex_G2 A ''LAL'' (own_step ex_G2 ''LAL'' 1 n))) ex_graph),
              pendingGames := (pendingGames ex_state)(id_m ex_G2 := None)\<rparr>, ''LAL'', 1)"
proof -
  have m: "matches ex_state = Some ex_graph" by (simp add: ex_state_def)
  have t: "team_a ex_G2 = Some ''LAL''" "team_b ex_G2 = Some ''GSW''"
    by (simp_all add: ex_G2_def)
  have g: "1 = gamesToRecord (pendingGames ex_state) ex_G2 ''LAL''"
    by (simp add: gamesToRecord_def ex_G2_def tbd_def)
  show ?thesis
    by (rule setWinnerLocal_Some[OF ex_bracketId ex_canEdit m t(1) _ t(2) _ _ _ g]) simp_all
qed

lemma setWinnerLocal_elim:
  assumes "setWinnerLocal env st mt team = Some (st', w, g)"
  obtains ms ta tb where "truthy (bracketId env)" "canEdit env st" "matches st = Some ms"
    "team_a mt = Some ta" "ta \<noteq> []" "team_b mt = Some tb" "tb \<noteq> []"
    "w = (if team = A then ta else tb)" "g = gamesToRecord (pendingGames st) mt w"
    "st' = st\<lparr>matches :=
                Some (map_graph (\<lambda>n. play_step (Some ms) mt (other team) (if team = A then tb else ta)
                                        (fwd_step mt team w (own_step mt w g n))) ms),
              pendingGames := (pendingGames st)(id_m mt := None)\<rparr>"
proof -
  from setWinnerLocal_SomeD[OF assms] obtain ms ta tb where
    a: "truthy (bracketId env)" "canEdit env st" "matches st = Some ms"
       "team_a mt = Some ta" "ta \<noteq> []" "team_b mt = Some tb" "tb \<noteq> []"
    by (auto simp: truthy_def split: option.splits)
  from setWinnerLocal_Some[OF a refl refl refl, of team] assms that[OF a] show thesis
    by simp
qed

lemma own_node_after:
  assumes "mt \<in> set (all_matches ms)" "ids_distinct ms" "next_match_id mt \<noteq> Defined (id_m mt)"
  shows "node (map_graph (\<lambda>n. play_step (Some ms) mt s l (fwd_step mt team w (own_step mt w g n))) ms)
           (id_m mt) = Some (mt\<lparr>predicted_winner := Some w, predicted_winner_games := Some g\<rparr>)"
proof -
  have own: "own_step mt w g mt = mt\<lparr>predicted_winner := Some w, predicted_winner_games := Some g\<rparr>"
    by (simp add: own_step_def upd_if_def)
  have "play_step (Some ms) mt s l (fwd_step mt team w (own_step mt w g mt)) =
        mt\<lparr>predicted_winner := Some w, predicted_winner_games := Some g\<rparr>"
    by (simp add: play_step_other[OF assms(2,1)] fwd_step_other assms(3)) (simp add: own)
  then show ?thesis
    by (simp add: node_map_graph node_distinct[OF assms(2,1)])
qed

lemma handleSetWinner_sent:
  assumes "setWinnerLocal env st mt team = Some (st', w, g)"
  shows "\<exists>bid. bracketId env = Some bid \<and> bid \<noteq> []
     \<and> snd (handleSetWinner env backend st mt team) =
         [\<lparr>path = match_path bid mt, body = SetWinnerBody w g\<rparr>]"
proof -
  from setWinnerLocal_SomeD[OF assms] obtain bid where "bracketId env = Some bid" "bid \<noteq> []"
    by (auto simp: truthy_def split: option.splits)
  with assms show ?thesis by (simp add: handleSetWinner_def Let_def)
qed

lemma handleSetWinner_accepted:
  assumes "setWinnerLocal env st mt team = Some (st', w, g)" "bracketId env = Some bid"
    and "patch backend (match_path bid mt) (SetWinnerBody w g) = Inr res"
  shows "fst (handleSetWinner env backend st mt team) = st'\<lparr>updatingMatchId := None, error := None\<rparr>"
  using assms by (simp add: handleSetWinner_def Let_def)

lemma handleSelectGames_round0:
  "round mt = 0 \<Longrightarrow> handleSelectGames env backend st mt v = (st, [])"
  by (simp add: handleSelectGames_def selectGamesLocal_def)

lemma truthy_pending_only:
  assumes "truthy (bracketId env)" "matches st \<noteq> None" "canEdit env st" "round mt \<noteq> 0"
    "\<not> truthy (predicted_winner mt)"
  shows "handleSelectGames env backend st mt v =
           (st\<lparr>pendingGames := (pendingGames st)(id_m mt \<mapsto> v)\<rparr>, [])"
  using assms
  by (auto simp: handleSelectGames_def selectGamesLocal_def truthy_def split: option.splits)

lemma canEdit_cong:
  "bracket st' = bracket st \<Longrightarrow> canEdit env st' = canEdit env st"
  by (simp add: canEdit_def isOwner_def isMasterBracket_def)

lemma ex_local:
  assumes "matches st = Some ms" "canEdit ex_env st" "team_a mt = Some ta" "ta \<noteq> []"
    "team_b mt = Some tb" "tb \<noteq> []"
  shows "\<exists>st' g. setWinnerLocal ex_env st mt team = Some (st', (if team = A then ta else tb), g)"
  using setWinnerLocal_Some[OF ex_bracketId assms(2,1,3-6) refl refl refl, of team] by simp

lemma fwd_step_shape:
  "fwd_step mt s w = (\<lambda>n. n) \<or> (\<exists>t d. fwd_step mt s w = upd_if t (write_slot d w s mt))"
  by (cases "next_match_id mt"; cases "next_slot mt") (auto simp: fwd_step_def)

lemma play_step_shape:
  "play_step r mt s l = (\<lambda>n. n) \<or> (\<exists>t. play_step r mt s l = upd_if t (write_slot B l s mt))"
  by (cases "findGame3 r mt") (auto simp: play_step_def)

lemma write_slot_absorbs_pick:
  "write_slot d t s src (x\<lparr>predicted_winner := a, predicted_winner_games := b\<rparr>) =
   write_slot d t s src x"
  by (simp add: write_slot_def)

lemma write_slot_twice:
  "write_slot d t s src (write_slot d t s src x) = write_slot d t s src x"
  by (simp add: write_slot_def)

lemma write_slot_B_around:
  "write_slot B l s' src' (write_slot d t s src (write_slot B l s' src' x)) =
   write_slot B l s' src' (write_slot d t s src x)"
  by (cases d) (simp_all add: write_slot_def)

lemma pick_twice_on_node:
  "x\<lparr>predicted_winner := a, predicted_winner_games := b,
      predicted_winner := a, predicted_winner_games := b\<rparr> =
   x\<lparr>predicted_winner := a, predicted_winner_games := b\<rparr>"
  by simp

lemma upd_shape_idem:
  assumes "W = (\<lambda>n. n) \<or> (\<exists>t d. W = upd_if t (write_slot d w s src))"
    and "P = (\<lambda>n. n) \<or> (\<exists>t. P = upd_if t (write_slot B l s' src'))"
  shows "P (W (own_step mt w g (P (W (own_step mt w g n))))) = P (W (own_step mt w g n))"
proof -
  note rules = own_step_def upd_if_def write_slot_absorbs_pick write_slot_twice
    write_slot_B_around
  from assms(1) consider "W = (\<lambda>n. n)" | t d where "W = upd_if t (write_slot d w s src)" by blast
  then show ?thesis
  proof cases
    case 1
    from assms(2) consider "P = (\<lambda>n. n)" | j where "P = upd_if j (write_slot B l s' src')" by blast
    then show ?thesis
    proof cases
      case 1 with \<open>W = (\<lambda>n. n)\<close> show ?thesis by (simp add: rules)
    next
      case 2 with \<open>W = (\<lambda>n. n)\<close> show ?thesis by (simp add: rules)
    qed
  next
    case 2
    note W = 2
    from assms(2) consider "P = (\<lambda>n. n)" | j where "P = upd_if j (write_slot B l s' src')" by blast
    then show ?thesis
    proof cases
      case 1 with W show ?thesis by (simp add: rules)
    next
      case 2 with W show ?thesis by (simp add: rules)
    qed
  qed
qed

lemma pick_step_idem:
  "play_step r mt s l (fwd_step mt team w (own_step mt w g
     (play_step r mt s l (fwd_step mt team w (own_step mt w g n))))) =
   play_step r mt s l (fwd_step mt team w (own_step mt w g n))"
  by (rule upd_shape_idem[OF fwd_step_shape play_step_shape])

lemma src_picked:
  "src_name s (m\<lparr>predicted_winner := a, predicted_winner_games := b\<rparr>) = src_name s m"
  "src_code s (m\<lparr>predicted_winner := a, predicted_winner_games := b\<rparr>) = src_code s m"
  "src_logo s (m\<lparr>predicted_winner := a, predicted_winner_games := b\<rparr>) = src_logo s m"
  "src_primary s (m\<lparr>predicted_winner := a, predicted_winner_games := b\<rparr>) = src_primary s m"
  "src_secondary s (m\<lparr>predicted_winner := a, predicted_winner_games := b\<rparr>) = src_secondary s m"
  by (simp_all add: src_name_def src_code_def src_logo_def src_primary_def src_secondary_def)

lemma write_slot_picked:
  "write_slot d t s (m\<lparr>predicted_winner := a, predicted_winner_games := b\<rparr>) = write_slot d t s m"
  by (rule ext) (simp add: write_slot_def src_picked)

lemma own_step_picked:
  "own_step (m\<lparr>predicted_winner := a, predicted_winner_games := b\<rparr>) w g = own_step m w g"
  by (rule ext) (simp add: own_step_def)

lemma fwd_step_picked:
  "fwd_step (m\<lparr>predicted_winner := a, predicted_winner_games := b\<rparr>) s w = fwd_step m s w"
  by (rule ext) (simp add: fwd_step_def write_slot_picked split: optional.splits)

lemma play_step_picked:
  assumes "\<And>n. round (F n) = round n" "\<And>n. slot (F n) = slot n" "\<And>n. id_m (F n) = id_m n"
  shows "play_step (Some (map_graph F ms)) (m\<lparr>predicted_winner := a, predicted_winner_games := b\<rparr>) s l
       = play_step (Some ms) m s l"
proof -
  have "findGame3 (Some (map_graph F ms)) (m\<lparr>predicted_winner := a, predicted_winner_games := b\<rparr>)
      = map_option F (findGame3 (Some ms) m)"
    by (rule findGame3_map_graph) (simp_all add: assms)
  then show ?thesis
    by (cases "findGame3 (Some ms) m") (simp_all add: play_step_def write_slot_picked assms)
qed

lemma gamesToRecord_again:
  "gamesToRecord P (m\<lparr>predicted_winner := Some w, predicted_winner_games := Some (gamesToRecord Q m w)\<rparr>) w
     = gamesToRecord Q m w"
  by (simp add: gamesToRecord_def)

lemma all_matches_upd_nth:
  assumes "k < length (all_matches ms)"
  shows "all_matches (map_graph (upd_if i f) ms) ! k =
           (if id_m (all_matches ms ! k) = i then f (all_matches ms ! k) else all_matches ms ! k)"
  using assms by (simp add: all_matches_map_graph upd_if_def)

lemma undoLocal_Some:
  assumes "truthy (bracketId env)" "matches st = Some ms" "isAdmin env" "isMasterBracket st"
  shows "undoLocal env st mt =
     Some (st\<lparr>matches :=
                Some (map_graph (upd_if (id_m mt)
                        (\<lambda>m. m\<lparr>predicted_winner := None, predicted_winner_games := None\<rparr>)) ms),
              pendingGames := (pendingGames st)(id_m mt := None)\<rparr>)"
  using assms by (simp add: undoLocal_def updateMatchInState_upd_if)

lemma undoLocal_SomeD:
  assumes "undoLocal env st mt = Some st1"
  shows "truthy (bracketId env) \<and> matches st \<noteq> None \<and> isAdmin env \<and> isMasterBracket st"
  using assms by (auto simp: undoLocal_def split: if_splits)

lemma allDecided_iff:
  "allDecided (Some ms) \<longleftrightarrow> ms \<noteq> [] \<and> (\<forall>m \<in> set (all_matches ms). decided m)"
  by (auto simp: allDecided_def all_matches_def list_all_iff split_def)

lemma decided_iff:
  "decided m \<longleftrightarrow>
     (truthy (team_a m) \<and> truthy (team_b m) \<longrightarrow>
        truthy (predicted_winner m) \<and> (round m > 0 \<longrightarrow> predicted_winner_games m \<noteq> None))"
  by (auto simp: decided_def)

lemma loadBracket_ok:
  assumes "bracketId env = Some bid" "bid \<noteq> []" "get backend (''/bracket/'' @ bid) = Inr data"
  shows "loadBracket env backend True st =
           st\<lparr>error := None, bracket := Some (resp_bracket data),
              matches := Some (resp_matches data),
              bracketName := (case name (resp_bracket data) of Defined n \<Rightarrow> n | _ \<Rightarrow> [])\<rparr>"
  using assms by (simp add: loadBracket_def)

lemma loadBracket_failed:
  assumes "bracketId env = Some bid" "bid \<noteq> []" "get backend (''/bracket/'' @ bid) = Inl e"
  shows "loadBracket env backend True st =
           st\<lparr>error := Some (message_or e ''Failed to load bracket'')\<rparr>"
  using assms by (simp add: loadBracket_def)

lemma handleSetWinner_rejected:
  assumes "setWinnerLocal env st mt team = Some (st1, w, g)" "bracketId env = Some bid"
    and "patch backend (match_path bid mt) (SetWinnerBody w g) = Inl err"
  shows "fst (handleSetWinner env backend st mt team) =
     (loadBracket env backend True
        (st1\<lparr>updatingMatchId := Some (id_m mt),
             error := Some (message_or err ''Failed to update match'')\<rparr>))\<lparr>updatingMatchId := None\<rparr>"
  using assms by (simp add: handleSetWinner_def Let_def)

lemma handleSelectGames_rejected:
  assumes "selectGamesLocal env st mt v = Recorded st1 w" "bracketId env = Some bid"
    and "patch backend (match_path bid mt) (SetWinnerBody w v) = Inl err"
  shows "fst (handleSelectGames env backend st mt v) =
     (loadBracket env backend True
        (st1\<lparr>updatingMatchId := Some (id_m mt),
             error := Some (message_or err ''Failed to update games'')\<rparr>))\<lparr>updatingMatchId := None\<rparr>"
  using assms by (simp add: handleSelectGames_def Let_def)

lemma handleUndo_rejected:
  assumes "undoLocal env st mt = Some st1" "bracketId env = Some bid"
    and "patch backend (match_path bid mt) UndoBody = Inl err"
  shows "fst (handleUndo env backend st mt) =
     (loadBracket env backend True
        (st1\<lparr>updatingMatchId := Some (id_m mt),
             error := Some (message_or err ''Failed to undo prediction'')\<rparr>))\<lparr>updatingMatchId := None\<rparr>"
  using assms by (simp add: handleUndo_def Let_def)

lemma ex_pick_A_nodes:
  "node_in (graph_after (setWinnerLocal ex_env ex_state ex_A A)) ''A'' =
     Some (ex_A\<lparr>predicted_winner := Some ''BOS'', predicted_winner_games := Some 5\<rparr>)"
  "node_in (graph_after (setWinnerLocal ex_env ex_state ex_A A)) ''B'' =
     Some (write_slot A ''BOS'' A ex_A ex_B)"
proof -
  have pl: "play_step (Some ex_graph) ex_A s l = (\<lambda>n. n)" for s l
    by (simp add: play_step_def findGame3_def) (simp add: ex_A_def tbd_def)
  have fb: "fwd_step ex_A A ''BOS'' ex_B = write_slot A ''BOS'' A ex_A ex_B"
    using fwd_step_target[of ex_A "''B''" SlotA ex_B A "''BOS''"]
    by (simp add: ex_A_def ex_B_def)
  have ob: "own_step ex_A ''BOS'' 5 ex_B = ex_B"
    by (rule own_step_miss) (simp add: ex_A_def ex_B_def)
  have fa: "fwd_step ex_A A ''BOS'' n = n" if "id_m n = ''A''" for n
    using that by (intro fwd_step_absent[of _ "''B''"]) (simp_all add: ex_A_def)
  have oa: "own_step ex_A ''BOS'' 5 ex_A =
      ex_A\<lparr>predicted_winner := Some ''BOS'', predicted_winner_games := Some 5\<rparr>"
    by (simp add: own_step_def upd_if_def)
  have ida: "id_m ex_A = ''A''" by (simp add: ex_A_def)
  show "node_in (graph_after (setWinnerLocal ex_env ex_state ex_A A)) ''A'' =
     Some (ex_A\<lparr>predicted_winner := Some ''BOS'', predicted_winner_games := Some 5\<rparr>)"
    by (simp add: ex_pick_A graph_after_def node_in_def node_map_graph ex_nodes pl oa fa ida)
  show "node_in (graph_after (setWinnerLocal ex_env ex_state ex_A A)) ''B'' =
     Some (write_slot A ''BOS'' A ex_A ex_B)"
    by (simp add: ex_pick_A graph_after_def node_in_def node_map_graph ex_nodes pl ob fb)
qed

lemma ex_paths:
  "bracketId ex_env = Some ''bk''" "bracketId ex_admin = Some ''bk''"
  "match_path ''bk'' ex_A = ''/bracket/bk/match/A''"
  "match_path ''bk'' ex_B = ''/bracket/bk/match/B''"
  "match_path ''bk'' ex_B_ready = ''/bracket/bk/match/B''"
  by (simp_all add: ex_env_def ex_admin_def match_path_def ex_A_def ex_B_def ex_B_ready_def)

text \<open>
  When the reload after a failed PATCH fails as well, the handlers leave the graph as
  the local mutation left it, and the error message is the one of the failed reload.
\<close>

lemma failed_reload_keeps_local_graph:
  assumes "bracketId env = Some bid" "bid \<noteq> []" "get backend (''/bracket/'' @ bid) = Inl e"
  shows
   "(\<forall>st1 w g err.
       setWinnerLocal env st mt team = Some (st1, w, g)
       \<and> patch backend (match_path bid mt) (SetWinnerBody w g) = Inl err \<longrightarrow>
         matches (fst (handleSetWinner env backend st mt team)) = matches st1
         \<and> error (fst (handleSetWinner env backend st mt team)) =
             Some (message_or e ''Failed to load bracket''))
    \<and> (\<forall>st1 w err.
       selectGamesLocal env st mt v = Recorded st1 w
       \<and> patch backend (match_path bid mt) (SetWinnerBody w v) = Inl err \<longrightarrow>
         matches (fst (handleSelectGames env backend st mt v)) = matches st1
         \<and> error (fst (handleSelectGames env backend st mt v)) =
             Some (message_or e ''Failed to load bracket''))
    \<and> (\<forall>st1 err.
       undoLocal env st mt = Some st1
       \<and> patch backend (match_path bid mt) UndoBody = Inl err \<longrightarrow>
         matches (fst (handleUndo env backend st mt)) = matches st1
         \<and> error (fst (handleUndo env backend st mt)) =
             Some (message_or e ''Failed to load bracket''))"
proof (intro conjI allI impI)
  fix st1 w g err
  assume h: "setWinnerLocal env st mt team = Some (st1, w, g)
       \<and> patch backend (match_path bid mt) (SetWinnerBody w g) = Inl err"
  note r = handleSetWinner_rejected[OF h[THEN conjunct1] assms(1) h[THEN conjunct2]]
  from loadBracket_failed[OF assms]
  show "matches (fst (handleSetWinner env backend st mt team)) = matches st1"
    and "error (fst (handleSetWinner env backend st mt team)) =
             Some (message_or e ''Failed to load bracket'')"
    by (simp_all add: r)
next
  fix st1 w err
  assume h: "selectGamesLocal env st mt v = Recorded st1 w
       \<and> patch backend (match_path bid mt) (SetWinnerBody w v) = Inl err"
  note r = handleSelectGames_rejected[OF h[THEN conjunct1] assms(1) h[THEN conjunct2]]
  from loadBracket_failed[OF assms]
  show "matches (fst (handleSelectGames env backend st mt v)) = matches st1"
    and "error (fst (handleSelectGames env backend st mt v)) =
             Some (message_or e ''Failed to load bracket'')"
    by (simp_all add: r)
next
  fix st1 err
  assume h: "undoLocal env st mt = Some st1
       \<and> patch backend (match_path bid mt) UndoBody = Inl err"
  note r = handleUndo_rejected[OF h[THEN conjunct1] assms(1) h[THEN conjunct2]]
  from loadBracket_failed[OF assms]
  show "matches (fst (handleUndo env backend st mt)) = matches st1"
    and "error (fst (handleUndo env backend st mt)) =
             Some (message_or e ''Failed to load bracket'')"
    by (simp_all add: r)
qed

text \<open>
  With a backend that cannot be reached, picking Boston in \<open>A\<close> sends the request, and
  the final graph still shows the pick and the propagated team.
\<close>

lemma unreachable_backend_keeps_pick:
  "patch ex_offline ''/bracket/bk/match/A'' (SetWinnerBody ''BOS'' 5) = Inl \<lparr>message = ''Failed to fetch''\<rparr>
   \<and> get ex_offline ''/bracket/bk'' = Inl \<lparr>message = ''Failed to fetch''\<rparr>
   \<and> snd (handleSetWinner ex_env ex_offline ex_state ex_A A) =
        [\<lparr>path = ''/bracket/bk/match/A'', body = SetWinnerBody ''BOS'' 5\<rparr>]
   \<and> map_option predicted_winner (node_in (matches ex_state) ''A'') = Some None
   \<and> map_option predicted_winner
        (node_in (matches (fst (handleSetWinner ex_env ex_offline ex_state ex_A A))) ''A'') =
        Some (Some ''BOS'')
   \<and> map_option team_a (node_in (matches ex_state) ''B'') = Some None
   \<and> map_option team_a
        (node_in (matches (fst (handleSetWinner ex_env ex_offline ex_state ex_A A))) ''B'') =
        Some (Some ''BOS'')"
proof -
  have off: "get ex_offline p = Inl \<lparr>message = ''Failed to fetch''\<rparr>"
    "patch ex_offline p q = Inl \<lparr>message = ''Failed to fetch''\<rparr>" for p q
    by (simp_all add: ex_offline_def)
  obtain s1 where l1: "setWinnerLocal ex_env ex_state ex_A A = Some (s1, ''BOS'', 5)"
    using ex_pick_A by simp
  from l1 have g: "graph_after (setWinnerLocal ex_env ex_state ex_A A) = matches s1"
    by (simp add: graph_after_def)
  have r: "fst (handleSetWinner ex_env ex_offline ex_state ex_A A) =
     (loadBracket ex_env ex_offline True
        (s1\<lparr>updatingMatchId := Some (id_m ex_A),
             error := Some (message_or \<lparr>message = ''Failed to fetch''\<rparr> ''Failed to update match'')\<rparr>))\<lparr>updatingMatchId := None\<rparr>"
    by (rule handleSetWinner_rejected[OF l1 ex_paths(1)]) (simp add: off)
  have m: "matches (fst (handleSetWinner ex_env ex_offline ex_state ex_A A)) =
       graph_after (setWinnerLocal ex_env ex_state ex_A A)"
    by (simp add: r g loadBracket_failed[OF ex_paths(1) _ off(1)])
  have sent: "snd (handleSetWinner ex_env ex_offline ex_state ex_A A) =
        [\<lparr>path = ''/bracket/bk/match/A'', body = SetWinnerBody ''BOS'' 5\<rparr>]"
    using handleSetWinner_sent[OF l1, of ex_offline] by (simp add: ex_paths)
  have before: "map_option predicted_winner (node_in (matches ex_state) ''A'') = Some None"
    "map_option team_a (node_in (matches ex_state) ''B'') = Some None"
    by (simp_all add: node_in_def ex_state_def ex_nodes) (simp_all add: ex_A_def ex_B_def tbd_def)
  from m sent before off show ?thesis
    by (simp add: ex_pick_A_nodes write_slot_A)
qed

text \<open>\<open>trim\<close> on examples: a name without outer white space, and a no-break space.\<close>

lemma trimStart_none: "leading_space s = 0 \<Longrightarrow> trimStart s = s"
  by (subst trimStart.simps) simp

lemma trimEnd_none: "trailing_space s = 0 \<Longrightarrow> trimEnd s = s"
  by (subst trimEnd.simps) simp

lemma trim_untouched:
  "leading_space s = 0 \<Longrightarrow> trailing_space s = 0 \<Longrightarrow> trim s = s"
  by (simp add: trim_def trimStart_none trimEnd_none)

lemma trim_nbsp: "trim [CHR 0xC2, CHR 0xA0] = []"
proof -
  have a: "leading_space [CHR 0xC2, CHR 0xA0] = 2"
    by (simp add: leading_space_def white_space_def)
  have b: "leading_space [] = 0" "trailing_space [] = 0"
    by (simp_all add: leading_space_def trailing_space_def white_space_def)
  have "trimStart [CHR 0xC2, CHR 0xA0] = trimStart []"
    by (subst trimStart.simps) (simp add: a)
  also have "\<dots> = []" by (simp add: b trimStart_none)
  finally show ?thesis by (simp add: trim_def b trimEnd_none)
qed

lemma trim_example: "trim '' a b  '' = ''a b''"
proof -
  have l: "leading_space '' a b  '' = 1" "leading_space ''a b  '' = 0"
    by (simp_all add: leading_space_def white_space_def)
  have t: "trailing_space ''a b  '' = 1" "trailing_space ''a b '' = 1" "trailing_space ''a b'' = 0"
    by (simp_all add: trailing_space_def white_space_def)
  have "trimStart '' a b  '' = trimStart ''a b  ''"
    by (subst trimStart.simps) (simp add: l)
  also have "\<dots> = ''a b  ''" by (simp add: l trimStart_none)
  finally have s: "trimStart '' a b  '' = ''a b  ''" .
  have "trimEnd ''a b  '' = trimEnd ''a b ''"
    by (subst trimEnd.simps) (simp add: t)
  also have "\<dots> = trimEnd ''a b''"
    by (subst trimEnd.simps) (simp add: t)
  also have "\<dots> = ''a b''" by (simp add: t trimEnd_none)
  finally show ?thesis by (simp add: trim_def s)
qed

section \<open>The claims\<close>

subsection \<open>C1: forward propagation\<close>

text \<open>
  Claim C1, as amended.  Let the guards of \<open>handleSetWinner\<close> pass and both participants
  of \<open>mt\<close> be assigned; \<open>w\<close> is the picked team.

  If \<open>mt\<close> has a forward link (a non-empty \<open>next_match_id\<close> and a \<open>next_slot\<close>) whose
  target is in the graph, then after the local mutation the target has, in the slot
  named by \<open>next_slot\<close>, the reference of \<open>w\<close> and its name, code, logo URL and two
  colours as \<open>mt\<close> holds them (a property absent on \<open>mt\<close> is written as null), and the
  target's \<open>predicted_winner\<close> and \<open>predicted_winner_games\<close> are null.  The one
  exception: when \<open>mt\<close> is the round-0, slot-2 match and its link names slot B of the
  very match that the play-in rule finds as game 3, the play-in rule runs later and
  decides team B.

  If \<open>mt\<close> has no forward link, or the id it names is not in the graph, then no node
  changes other than the nodes with the id of \<open>mt\<close> and, when \<open>mt\<close> is at round 0,
  slot 2, the game-3 match that receives the loser (the claim says that no other match
  changes at all).
\<close>

theorem forward_propagation:
  assumes "matches st = Some ms"
    and "truthy (bracketId env)" "canEdit env st" "truthy (team_a mt)" "truthy (team_b mt)"
  shows "\<exists>st' w g ms'.
     setWinnerLocal env st mt team = Some (st', w, g) \<and> matches st' = Some ms'
     \<and> src_team team mt = Some w
     \<and> (\<forall>t letter tgt.
          next_match_id mt = Defined t \<and> t \<noteq> [] \<and> next_slot mt = Defined letter
          \<and> node ms t = Some tgt
          \<and> (letter = SlotB \<longrightarrow> map_option id_m (findGame3 (Some ms) mt) \<noteq> Some t) \<longrightarrow>
          (\<exists>tgt'. node ms' t = Some tgt'
             \<and> predicted_winner tgt' = None \<and> predicted_winner_games tgt' = None
             \<and> (letter = SlotA \<longrightarrow>
                   team_a tgt' = Some w
                   \<and> team_a_name tgt' = or_null (src_name team mt)
                   \<and> team_a_code tgt' = or_null (src_code team mt)
                   \<and> team_a_logo_url tgt' = or_null (src_logo team mt)
                   \<and> team_a_primary_color tgt' = or_null (src_primary team mt)
                   \<and> team_a_secondary_color tgt' = or_null (src_secondary team mt))
             \<and> (letter = SlotB \<longrightarrow>
                   team_b tgt' = Some w
                   \<and> team_b_name tgt' = or_null (src_name team mt)
                   \<and> team_b_code tgt' = or_null (src_code team mt)
                   \<and> team_b_logo_url tgt' = or_null (src_logo team mt)
                   \<and> team_b_primary_color tgt' = or_null (src_primary team mt)
                   \<and> team_b_secondary_color tgt' = or_null (src_secondary team mt))))
     \<and> ((\<not> truthy_opt (next_match_id mt) \<or> next_slot mt = Undefined \<or> next_slot mt = Null
          \<or> (\<exists>t. next_match_id mt = Defined t \<and> node ms t = None)) \<longrightarrow>
          length (all_matches ms') = length (all_matches ms)
          \<and> (\<forall>k < length (all_matches ms).
                id_m (all_matches ms ! k) \<noteq> id_m mt
                \<and> Some (id_m (all_matches ms ! k)) \<noteq> map_option id_m (findGame3 (Some ms) mt) \<longrightarrow>
                all_matches ms' ! k = all_matches ms ! k))
     \<and> (round mt \<noteq> 0 \<or> slot mt \<noteq> 2 \<longrightarrow> findGame3 (Some ms) mt = None)"
proof -
  from assms obtain ta tb where t: "team_a mt = Some ta" "ta \<noteq> []" "team_b mt = Some tb" "tb \<noteq> []"
    by (auto simp: truthy_def split: option.splits)
  define w where "w = (if team = A then ta else tb)"
  define l where "l = (if team = A then tb else ta)"
  define g where "g = gamesToRecord (pendingGames st) mt w"
  define F where "F = (\<lambda>n. play_step (Some ms) mt (other team) l (fwd_step mt team w (own_step mt w g n)))"
  define ms' where "ms' = map_graph F ms"
  define st' where "st' = st\<lparr>matches := Some ms', pendingGames := (pendingGames st)(id_m mt := None)\<rparr>"
  have loc: "setWinnerLocal env st mt team = Some (st', w, g)"
    using assms setWinnerLocal_Some[OF _ _ assms(1) t w_def l_def g_def]
    by (simp add: st'_def ms'_def F_def)
  have idF: "\<And>m. id_m (F m) = id_m m" by (simp add: F_def)
  have win: "src_team team mt = Some w" by (simp add: src_team_def w_def t)
  have part1: "\<exists>tgt'. node ms' t = Some tgt'
             \<and> predicted_winner tgt' = None \<and> predicted_winner_games tgt' = None
             \<and> (letter = SlotA \<longrightarrow>
                   team_a tgt' = Some w
                   \<and> team_a_name tgt' = or_null (src_name team mt)
                   \<and> team_a_code tgt' = or_null (src_code team mt)
                   \<and> team_a_logo_url tgt' = or_null (src_logo team mt)
                   \<and> team_a_primary_color tgt' = or_null (src_primary team mt)
                   \<and> team_a_secondary_color tgt' = or_null (src_secondary team mt))
             \<and> (letter = SlotB \<longrightarrow>
                   team_b tgt' = Some w
                   \<and> team_b_name tgt' = or_null (src_name team mt)
                   \<and> team_b_code tgt' = or_null (src_code team mt)
                   \<and> team_b_logo_url tgt' = or_null (src_logo team mt)
                   \<and> team_b_primary_color tgt' = or_null (src_primary team mt)
                   \<and> team_b_secondary_color tgt' = or_null (src_secondary team mt))"
    if h: "next_match_id mt = Defined t \<and> t \<noteq> [] \<and> next_slot mt = Defined letter
          \<and> node ms t = Some tgt
          \<and> (letter = SlotB \<longrightarrow> map_option id_m (findGame3 (Some ms) mt) \<noteq> Some t)"
    for t letter tgt
  proof -
    from h node_SomeD[of ms t tgt] have idt: "id_m tgt = t" by simp
    have nd: "node ms' t = Some (F tgt)"
      using h by (simp add: ms'_def node_map_graph[of F, OF idF])
    define X where "X = write_slot (if letter = SlotA then A else B) w team mt (own_step mt w g tgt)"
    have fw: "fwd_step mt team w (own_step mt w g tgt) = X"
      unfolding X_def using h idt by (intro fwd_step_target) simp_all
    have FX: "F tgt = play_step (Some ms) mt (other team) l X"
      by (simp add: F_def fw)
    have clr: "predicted_winner (F tgt) = None" "predicted_winner_games (F tgt) = None"
      unfolding FX by (rule play_step_cleared; simp add: X_def write_slot_B)+
    have a: "letter = SlotA \<longrightarrow>
                   team_a (F tgt) = Some w
                   \<and> team_a_name (F tgt) = or_null (src_name team mt)
                   \<and> team_a_code (F tgt) = or_null (src_code team mt)
                   \<and> team_a_logo_url (F tgt) = or_null (src_logo team mt)
                   \<and> team_a_primary_color (F tgt) = or_null (src_primary team mt)
                   \<and> team_a_secondary_color (F tgt) = or_null (src_secondary team mt)"
      by (simp add: FX play_step_A) (simp add: X_def write_slot_A)
    have b: "letter = SlotB \<longrightarrow>
                   team_b (F tgt) = Some w
                   \<and> team_b_name (F tgt) = or_null (src_name team mt)
                   \<and> team_b_code (F tgt) = or_null (src_code team mt)
                   \<and> team_b_logo_url (F tgt) = or_null (src_logo team mt)
                   \<and> team_b_primary_color (F tgt) = or_null (src_primary team mt)
                   \<and> team_b_secondary_color (F tgt) = or_null (src_secondary team mt)"
    proof
      assume sb: "letter = SlotB"
      have "id_m X = t" by (simp add: X_def idt)
      with h sb have "Some (id_m X) \<noteq> map_option id_m (findGame3 (Some ms) mt)"
        by (cases "findGame3 (Some ms) mt") auto
      from play_step_miss[OF this] have "F tgt = X" by (simp add: FX)
      then show "team_b (F tgt) = Some w
                   \<and> team_b_name (F tgt) = or_null (src_name team mt)
                   \<and> team_b_code (F tgt) = or_null (src_code team mt)
                   \<and> team_b_logo_url (F tgt) = or_null (src_logo team mt)
                   \<and> team_b_primary_color (F tgt) = or_null (src_primary team mt)
                   \<and> team_b_secondary_color (F tgt) = or_null (src_secondary team mt)"
        using sb by (simp add: X_def write_slot_B)
    qed
    from nd clr a b show ?thesis by blast
  qed
  have part2: "length (all_matches ms') = length (all_matches ms)
          \<and> (\<forall>k < length (all_matches ms).
                id_m (all_matches ms ! k) \<noteq> id_m mt
                \<and> Some (id_m (all_matches ms ! k)) \<noteq> map_option id_m (findGame3 (Some ms) mt) \<longrightarrow>
                all_matches ms' ! k = all_matches ms ! k)"
    if h: "\<not> truthy_opt (next_match_id mt) \<or> next_slot mt = Undefined \<or> next_slot mt = Null
          \<or> (\<exists>t. next_match_id mt = Defined t \<and> node ms t = None)"
  proof -
    have fw: "fwd_step mt team w n = n" if "n \<in> set (all_matches ms)" for n
    proof -
      from h consider "\<not> truthy_opt (next_match_id mt) \<or> next_slot mt = Undefined \<or> next_slot mt = Null"
        | t where "next_match_id mt = Defined t" "node ms t = None" by blast
      then show ?thesis
      proof cases
        case 1 then show ?thesis by (rule fwd_step_nolink)
      next
        case 2
        with that have "id_m n \<noteq> t" by (auto simp: node_None_iff)
        with 2 show ?thesis by (intro fwd_step_absent)
      qed
    qed
    have "all_matches ms' ! k = all_matches ms ! k"
      if k: "k < length (all_matches ms)" "id_m (all_matches ms ! k) \<noteq> id_m mt"
        "Some (id_m (all_matches ms ! k)) \<noteq> map_option id_m (findGame3 (Some ms) mt)" for k
    proof -
      let ?n = "all_matches ms ! k"
      have "all_matches ms' ! k = F ?n" using k(1) by (simp add: ms'_def all_matches_map_graph)
      also have "\<dots> = ?n"
        using k by (simp add: F_def own_step_miss fw play_step_miss)
      finally show ?thesis .
    qed
    then show ?thesis by (simp add: ms'_def all_matches_map_graph)
  qed
  have part3: "round mt \<noteq> 0 \<or> slot mt \<noteq> 2 \<longrightarrow> findGame3 (Some ms) mt = None"
    by (auto simp: findGame3_def)
  show ?thesis
    apply (rule exI[of _ st'], rule exI[of _ w], rule exI[of _ g], rule exI[of _ ms'])
    using loc win part1 part2 part3 by (simp add: st'_def)
qed

theorem forward_propagation_witness:
  "(\<exists>st' ms' tgt'.
      setWinnerLocal ex_env ex_state ex_A A = Some (st', ''BOS'', 5) \<and> matches st' = Some ms'
      \<and> node ms' ''B'' = Some tgt'
      \<and> predicted_winner tgt' = None \<and> predicted_winner_games tgt' = None
      \<and> team_a tgt' = Some ''BOS''
      \<and> team_a_name tgt' = Defined ''Celtics''
      \<and> team_a_code tgt' = Defined ''BOS''
      \<and> team_a_logo_url tgt' = Null
      \<and> team_a_primary_color tgt' = Defined ''#007A33''
      \<and> team_a_secondary_color tgt' = Defined ''#BA9653'')
   \<and> (\<exists>st' ms'.
      setWinnerLocal ex_env ex_state ex_G2 A = Some (st', ''LAL'', 1) \<and> matches st' = Some ms'
      \<and> length (all_matches ms') = 4
      \<and> all_matches ms' ! 0 = ex_A \<and> all_matches ms' ! 1 = ex_B)"
proof -
  have m: "matches ex_state = Some ex_graph" by (simp add: ex_state_def)
  have t: "truthy (team_a ex_A)" "truthy (team_b ex_A)" "truthy (team_a ex_G2)" "truthy (team_b ex_G2)"
    by (simp_all add: truthy_def ex_A_def ex_G2_def tbd_def)
  have lnk: "next_match_id ex_A = Defined ''B'' \<and> ''B'' \<noteq> [] \<and> next_slot ex_A = Defined SlotA
      \<and> node ex_graph ''B'' = Some ex_B
      \<and> (SlotA = SlotB \<longrightarrow> map_option id_m (findGame3 (Some ex_graph) ex_A) \<noteq> Some ''B'')"
    by (simp add: ex_nodes) (simp add: ex_A_def tbd_def)
  have src: "src_team A ex_A = Some ''BOS''"
    "or_null (src_name A ex_A) = Defined ''Celtics''"
    "or_null (src_code A ex_A) = Defined ''BOS''"
    "or_null (src_logo A ex_A) = Null"
    "or_null (src_primary A ex_A) = Defined ''#007A33''"
    "or_null (src_secondary A ex_A) = Defined ''#BA9653''"
    by (simp_all add: src_team_def or_null_def src_name_def src_code_def src_logo_def
        src_primary_def src_secondary_def ex_A_def tbd_def)
  from forward_propagation[OF m ex_bracketId ex_canEdit t(1,2), of A]
  obtain st' w g ms' where
    a: "setWinnerLocal ex_env ex_state ex_A A = Some (st', w, g)" "matches st' = Some ms'"
    and b: "\<forall>t letter tgt.
          next_match_id ex_A = Defined t \<and> t \<noteq> [] \<and> next_slot ex_A = Defined letter
          \<and> node ex_graph t = Some tgt
          \<and> (letter = SlotB \<longrightarrow> map_option id_m (findGame3 (Some ex_graph) ex_A) \<noteq> Some t) \<longrightarrow>
          (\<exists>tgt'. node ms' t = Some tgt'
             \<and> predicted_winner tgt' = None \<and> predicted_winner_games tgt' = None
             \<and> (letter = SlotA \<longrightarrow>
                   team_a tgt' = Some w
                   \<and> team_a_name tgt' = or_null (src_name A ex_A)
                   \<and> team_a_code tgt' = or_null (src_code A ex_A)
                   \<and> team_a_logo_url tgt' = or_null (src_logo A ex_A)
                   \<and> team_a_primary_color tgt' = or_null (src_primary A ex_A)
                   \<and> team_a_secondary_color tgt' = or_null (src_secondary A ex_A))
             \<and> (letter = SlotB \<longrightarrow>
                   team_b tgt' = Some w
                   \<and> team_b_name tgt' = or_null (src_name A ex_A)
                   \<and> team_b_code tgt' = or_null (src_code A ex_A)
                   \<and> team_b_logo_url tgt' = or_null (src_logo A ex_A)
                   \<and> team_b_primary_color tgt' = or_null (src_primary A ex_A)
                   \<and> team_b_secondary_color tgt' = or_null (src_secondary A ex_A)))"
    by blast
  from a(1) ex_pick_A have wg: "w = ''BOS''" "g = 5" by simp_all
  from b[rule_format, OF lnk] obtain tgt' where
    c: "node ms' ''B'' = Some tgt'" "predicted_winner tgt' = None" "predicted_winner_games tgt' = None"
       "team_a tgt' = Some w"
       "team_a_name tgt' = or_null (src_name A ex_A)"
       "team_a_code tgt' = or_null (src_code A ex_A)"
       "team_a_logo_url tgt' = or_null (src_logo A ex_A)"
       "team_a_primary_color tgt' = or_null (src_primary A ex_A)"
       "team_a_secondary_color tgt' = or_null (src_secondary A ex_A)"
    by auto
  have first: "\<exists>st' ms' tgt'.
      setWinnerLocal ex_env ex_state ex_A A = Some (st', ''BOS'', 5) \<and> matches st' = Some ms'
      \<and> node ms' ''B'' = Some tgt'
      \<and> predicted_winner tgt' = None \<and> predicted_winner_games tgt' = None
      \<and> team_a tgt' = Some ''BOS''
      \<and> team_a_name tgt' = Defined ''Celtics''
      \<and> team_a_code tgt' = Defined ''BOS''
      \<and> team_a_logo_url tgt' = Null
      \<and> team_a_primary_color tgt' = Defined ''#007A33''
      \<and> team_a_secondary_color tgt' = Defined ''#BA9653''"
    apply (rule exI[of _ st'], rule exI[of _ ms'], rule exI[of _ tgt'])
    using a c wg src by simp
  have nolink: "\<not> truthy_opt (next_match_id ex_G2) \<or> next_slot ex_G2 = Undefined \<or> next_slot ex_G2 = Null
          \<or> (\<exists>t. next_match_id ex_G2 = Defined t \<and> node ex_graph t = None)"
    by (simp add: truthy_opt_def ex_G2_def tbd_def)
  from forward_propagation[OF m ex_bracketId ex_canEdit t(3,4), of A]
  obtain st2 w2 g2 ms2 where
    d: "setWinnerLocal ex_env ex_state ex_G2 A = Some (st2, w2, g2)" "matches st2 = Some ms2"
    and e: "(\<not> truthy_opt (next_match_id ex_G2) \<or> next_slot ex_G2 = Undefined \<or> next_slot ex_G2 = Null
          \<or> (\<exists>t. next_match_id ex_G2 = Defined t \<and> node ex_graph t = None)) \<longrightarrow>
          length (all_matches ms2) = length (all_matches ex_graph)
          \<and> (\<forall>k < length (all_matches ex_graph).
                id_m (all_matches ex_graph ! k) \<noteq> id_m ex_G2
                \<and> Some (id_m (all_matches ex_graph ! k)) \<noteq> map_option id_m (findGame3 (Some ex_graph) ex_G2) \<longrightarrow>
                all_matches ms2 ! k = all_matches ex_graph ! k)"
    by blast
  from d(1) ex_pick_G2 have wg2: "w2 = ''LAL''" "g2 = 1" by simp_all
  from e nolink have f: "length (all_matches ms2) = length (all_matches ex_graph)"
     "\<And>k. k < length (all_matches ex_graph) \<Longrightarrow>
                id_m (all_matches ex_graph ! k) \<noteq> id_m ex_G2
                \<and> Some (id_m (all_matches ex_graph ! k)) \<noteq> map_option id_m (findGame3 (Some ex_graph) ex_G2) \<Longrightarrow>
                all_matches ms2 ! k = all_matches ex_graph ! k"
    by blast+
  have k0: "all_matches ms2 ! 0 = ex_A"
    using f(2)[of 0] by (simp add: ex_graph_nodes ex_findGame3) (simp add: ex_defs)
  have k1: "all_matches ms2 ! 1 = ex_B"
    using f(2)[of 1] by (simp add: ex_graph_nodes ex_findGame3) (simp add: ex_defs)
  have second: "\<exists>st' ms'.
      setWinnerLocal ex_env ex_state ex_G2 A = Some (st', ''LAL'', 1) \<and> matches st' = Some ms'
      \<and> length (all_matches ms') = 4
      \<and> all_matches ms' ! 0 = ex_A \<and> all_matches ms' ! 1 = ex_B"
    apply (rule exI[of _ st2], rule exI[of _ ms2])
    using d wg2 f(1) k0 k1 by (simp add: ex_graph_nodes)
  from first second show ?thesis by blast
qed

text \<open>
  The claim as it is written fails on a play-in match without a forward link: picking
  the Lakers in game 2 (\<open>G2\<close>, round 0, slot 2, no link) rewrites team B of game 3 and
  clears its prediction.
\<close>

theorem setWinner_without_link_changes_game3:
  "truthy (bracketId ex_env) \<and> canEdit ex_env ex_state
   \<and> truthy (team_a ex_G2) \<and> truthy (team_b ex_G2)
   \<and> next_match_id ex_G2 = Null \<and> next_slot ex_G2 = Null \<and> id_m ex_G2 = ''G2''
   \<and> node_in (matches ex_state) ''G3'' = Some ex_G3
   \<and> node_in (graph_after (setWinnerLocal ex_env ex_state ex_G2 A)) ''G3'' =
       Some (ex_G3\<lparr>team_b := Some ''GSW'',
                   team_b_name := Defined ''Warriors'', team_b_code := Defined ''GSW'',
                   team_b_logo_url := Defined ''/logos/gsw.png'',
                   team_b_primary_color := Defined ''#1D428A'',
                   team_b_secondary_color := Defined ''#FFC72C'',
                   predicted_winner := None, predicted_winner_games := None\<rparr>)
   \<and> team_b ex_G3 = Some ''DAL'' \<and> predicted_winner ex_G3 = Some ''DAL''"
proof -
  have a: "truthy (team_a ex_G2)" "truthy (team_b ex_G2)" "next_match_id ex_G2 = Null"
    "next_slot ex_G2 = Null" "id_m ex_G2 = ''G2''" "team_b ex_G3 = Some ''DAL''"
    "predicted_winner ex_G3 = Some ''DAL''"
    by (simp_all add: truthy_def ex_G2_def ex_G3_def tbd_def)
  have b: "node_in (matches ex_state) ''G3'' = Some ex_G3"
    by (simp add: node_in_def ex_state_def ex_nodes)
  have own: "own_step ex_G2 ''LAL'' 1 ex_G3 = ex_G3"
    by (rule own_step_miss) (simp add: ex_G2_def ex_G3_def)
  have fw: "fwd_step ex_G2 A ''LAL'' ex_G3 = ex_G3"
    by (rule fwd_step_nolink) (simp add: truthy_opt_def a)
  have pl: "play_step (Some ex_graph) ex_G2 (other A) ''GSW'' ex_G3 =
     ex_G3\<lparr>team_b := Some ''GSW'',
                   team_b_name := Defined ''Warriors'', team_b_code := Defined ''GSW'',
                   team_b_logo_url := Defined ''/logos/gsw.png'',
                   team_b_primary_color := Defined ''#1D428A'',
                   team_b_secondary_color := Defined ''#FFC72C'',
                   predicted_winner := None, predicted_winner_games := None\<rparr>"
    by (simp add: play_step_def ex_findGame3 upd_if_def write_slot_def other_def or_null_def
        src_name_def src_code_def src_logo_def src_primary_def src_secondary_def)
       (simp add: ex_G2_def tbd_def)
  have c: "node_in (graph_after (setWinnerLocal ex_env ex_state ex_G2 A)) ''G3'' =
       Some (ex_G3\<lparr>team_b := Some ''GSW'',
                   team_b_name := Defined ''Warriors'', team_b_code := Defined ''GSW'',
                   team_b_logo_url := Defined ''/logos/gsw.png'',
                   team_b_primary_color := Defined ''#1D428A'',
                   team_b_secondary_color := Defined ''#FFC72C'',
                   predicted_winner := None, predicted_winner_games := None\<rparr>)"
    by (simp add: ex_pick_G2 graph_after_def node_in_def node_map_graph ex_nodes own fw pl)
  from a b c ex_bracketId ex_canEdit show ?thesis by simp
qed

subsection \<open>C2: the loser of play-in game 2 goes to game 3\<close>

text \<open>
  Claim C2.  Let \<open>mt\<close> be at round 0, slot 2, with both participants assigned, let the
  guards of \<open>handleSetWinner\<close> pass, and let \<open>game3\<close> be the match at round 0, slot 3
  that the code finds under the conference of \<open>mt\<close> and the round key \<open>0\<close>.  After the
  local mutation the node with the id of \<open>game3\<close> carries, in its team-B fields, the
  reference of the team that was not picked and that team's name, code, logo URL and
  two colours as \<open>mt\<close> holds them (a property absent on \<open>mt\<close> is written as null), and
  its \<open>predicted_winner\<close> and \<open>predicted_winner_games\<close> are null; with pairwise different
  ids that node is still a round-0, slot-3 match.  For a match at any other round or
  slot \<open>updatePlayInGame3LoserInState\<close> returns the graph it was given.
\<close>

theorem playin_loser_goes_to_game3:
  assumes "matches st = Some ms"
  shows "(truthy (bracketId env) \<and> canEdit env st \<and> truthy (team_a mt) \<and> truthy (team_b mt)
          \<and> round mt = 0 \<and> slot mt = 2
          \<and> map_of ms (conference mt) = Some rounds \<and> map_of rounds ''0'' = Some roundMatches
          \<and> find (\<lambda>m. round m = 0 \<and> slot m = 3) roundMatches = Some game3 \<longrightarrow>
           (\<exists>st' w g ms' g3' l.
              setWinnerLocal env st mt team = Some (st', w, g) \<and> matches st' = Some ms'
              \<and> src_team team mt = Some w \<and> src_team (other team) mt = Some l
              \<and> node ms' (id_m game3) = Some g3'
              \<and> team_b g3' = Some l
              \<and> team_b_name g3' = or_null (src_name (other team) mt)
              \<and> team_b_code g3' = or_null (src_code (other team) mt)
              \<and> team_b_logo_url g3' = or_null (src_logo (other team) mt)
              \<and> team_b_primary_color g3' = or_null (src_primary (other team) mt)
              \<and> team_b_secondary_color g3' = or_null (src_secondary (other team) mt)
              \<and> predicted_winner g3' = None \<and> predicted_winner_games g3' = None
              \<and> (ids_distinct ms \<longrightarrow>
                    round g3' = 0 \<and> slot g3' = 3 \<and> conference g3' = conference game3)))
       \<and> (round mt \<noteq> 0 \<or> slot mt \<noteq> 2 \<longrightarrow>
            updatePlayInGame3LoserInState rendered mt loserSide loserTeamId prev = prev)"
proof (intro conjI impI)
  assume h: "truthy (bracketId env) \<and> canEdit env st \<and> truthy (team_a mt) \<and> truthy (team_b mt)
          \<and> round mt = 0 \<and> slot mt = 2
          \<and> map_of ms (conference mt) = Some rounds \<and> map_of rounds ''0'' = Some roundMatches
          \<and> find (\<lambda>m. round m = 0 \<and> slot m = 3) roundMatches = Some game3"
  then obtain ta tb where t: "team_a mt = Some ta" "ta \<noteq> []" "team_b mt = Some tb" "tb \<noteq> []"
    by (auto simp: truthy_def split: option.splits)
  from h have fg: "findGame3 (Some ms) mt = Some game3"
    by (simp add: findGame3_eq)
  define w where "w = (if team = A then ta else tb)"
  define l where "l = (if team = A then tb else ta)"
  define g where "g = gamesToRecord (pendingGames st) mt w"
  define F where "F = (\<lambda>n. play_step (Some ms) mt (other team) l (fwd_step mt team w (own_step mt w g n)))"
  define ms' where "ms' = map_graph F ms"
  define st' where "st' = st\<lparr>matches := Some ms', pendingGames := (pendingGames st)(id_m mt := None)\<rparr>"
  have loc: "setWinnerLocal env st mt team = Some (st', w, g)"
    using h setWinnerLocal_Some[OF _ _ assms(1) t w_def l_def g_def]
    by (simp add: st'_def ms'_def F_def)
  have idF: "\<And>m. id_m (F m) = id_m m" by (simp add: F_def)
  from findGame3_SomeD[OF fg] have gin: "game3 \<in> set (all_matches ms)" by simp
  from node_exists[OF gin] obtain n0 where n0: "node ms (id_m game3) = Some n0" "id_m n0 = id_m game3"
    by blast
  have nd: "node ms' (id_m game3) = Some (F n0)"
    by (simp add: ms'_def node_map_graph[of F, OF idF] n0)
  have Fn: "F n0 = write_slot B l (other team) mt (fwd_step mt team w (own_step mt w g n0))"
    by (simp add: F_def play_step_def fg upd_if_def n0)
  have teams: "src_team team mt = Some w" "src_team (other team) mt = Some l"
    by (simp_all add: src_team_def other_def w_def l_def t)
  have dist: "ids_distinct ms \<longrightarrow> round (F n0) = 0 \<and> slot (F n0) = 3 \<and> conference (F n0) = conference game3"
  proof
    assume "ids_distinct ms"
    from node_distinct[OF this gin] n0 have "n0 = game3" by simp
    with findGame3_SomeD[OF fg] show "round (F n0) = 0 \<and> slot (F n0) = 3 \<and> conference (F n0) = conference game3"
      by (simp add: F_def)
  qed
  show "\<exists>st' w g ms' g3' l.
              setWinnerLocal env st mt team = Some (st', w, g) \<and> matches st' = Some ms'
              \<and> src_team team mt = Some w \<and> src_team (other team) mt = Some l
              \<and> node ms' (id_m game3) = Some g3'
              \<and> team_b g3' = Some l
              \<and> team_b_name g3' = or_null (src_name (other team) mt)
              \<and> team_b_code g3' = or_null (src_code (other team) mt)
              \<and> team_b_logo_url g3' = or_null (src_logo (other team) mt)
              \<and> team_b_primary_color g3' = or_null (src_primary (other team) mt)
              \<and> team_b_secondary_color g3' = or_null (src_secondary (other team) mt)
              \<and> predicted_winner g3' = None \<and> predicted_winner_games g3' = None
              \<and> (ids_distinct ms \<longrightarrow>
                    round g3' = 0 \<and> slot g3' = 3 \<and> conference g3' = conference game3)"
    apply (rule exI[of _ st'], rule exI[of _ w], rule exI[of _ g], rule exI[of _ ms'],
        rule exI[of _ "F n0"], rule exI[of _ l])
    using loc nd teams dist by (simp add: st'_def Fn write_slot_B)
next
  assume "round mt \<noteq> 0 \<or> slot mt \<noteq> 2"
  then show "updatePlayInGame3LoserInState rendered mt loserSide loserTeamId prev = prev"
    by (auto simp: updatePlayInGame3LoserInState_def findGame3_def)
qed

theorem playin_loser_goes_to_game3_witness:
  "(\<exists>st' ms' g3'.
      setWinnerLocal ex_env ex_state ex_G2 A = Some (st', ''LAL'', 1) \<and> matches st' = Some ms'
      \<and> node ms' ''G3'' = Some g3'
      \<and> team_b g3' = Some ''GSW''
      \<and> team_b_name g3' = Defined ''Warriors''
      \<and> team_b_code g3' = Defined ''GSW''
      \<and> team_b_logo_url g3' = Defined ''/logos/gsw.png''
      \<and> team_b_primary_color g3' = Defined ''#1D428A''
      \<and> team_b_secondary_color g3' = Defined ''#FFC72C''
      \<and> predicted_winner g3' = None \<and> predicted_winner_games g3' = None
      \<and> round g3' = 0 \<and> slot g3' = 3 \<and> conference g3' = ''west'')
   \<and> updatePlayInGame3LoserInState (Some ex_graph) ex_A B ''MIA'' (Some ex_graph) = Some ex_graph"
proof -
  have m: "matches ex_state = Some ex_graph" by (simp add: ex_state_def)
  have t: "truthy (team_a ex_G2)" "truthy (team_b ex_G2)" "round ex_G2 = 0" "slot ex_G2 = 2"
    "round ex_A \<noteq> 0"
    by (simp_all add: truthy_def ex_G2_def ex_A_def tbd_def)
  have c: "map_of ex_graph (conference ex_G2) = Some [(''0'', [ex_G2, ex_G3])]"
    by (simp add: ex_graph_def ex_G2_def tbd_def)
  have r: "map_of [(''0'', [ex_G2, ex_G3])] ''0'' = Some [ex_G2, ex_G3]" by simp
  have f: "find (\<lambda>m. round m = 0 \<and> slot m = 3) [ex_G2, ex_G3] = Some ex_G3"
    by (simp add: ex_G2_def ex_G3_def tbd_def)
  have s: "src_team A ex_G2 = Some ''LAL''" "src_team (other A) ex_G2 = Some ''GSW''"
    "gamesToRecord (pendingGames ex_state) ex_G2 ''LAL'' = 1"
    "id_m ex_G3 = ''G3''" "conference ex_G3 = ''west''"
    "or_null (src_name (other A) ex_G2) = Defined ''Warriors''"
    "or_null (src_code (other A) ex_G2) = Defined ''GSW''"
    "or_null (src_logo (other A) ex_G2) = Defined ''/logos/gsw.png''"
    "or_null (src_primary (other A) ex_G2) = Defined ''#1D428A''"
    "or_null (src_secondary (other A) ex_G2) = Defined ''#FFC72C''"
    by (simp_all add: src_team_def other_def gamesToRecord_def or_null_def src_name_def
        src_code_def src_logo_def src_primary_def src_secondary_def ex_G2_def ex_G3_def tbd_def)
  from playin_loser_goes_to_game3[OF m, of ex_env ex_G2 "[(''0'', [ex_G2, ex_G3])]" "[ex_G2, ex_G3]" ex_G3 A]
    t c r f ex_canEdit ex_bracketId ex_graph_distinct
  obtain st' w g ms' g3' l where
     a: "setWinnerLocal ex_env ex_state ex_G2 A = Some (st', w, g)" "matches st' = Some ms'"
        "src_team A ex_G2 = Some w" "src_team (other A) ex_G2 = Some l"
        "node ms' (id_m ex_G3) = Some g3'" "team_b g3' = Some l"
        "team_b_name g3' = or_null (src_name (other A) ex_G2)"
        "team_b_code g3' = or_null (src_code (other A) ex_G2)"
        "team_b_logo_url g3' = or_null (src_logo (other A) ex_G2)"
        "team_b_primary_color g3' = or_null (src_primary (other A) ex_G2)"
        "team_b_secondary_color g3' = or_null (src_secondary (other A) ex_G2)"
        "predicted_winner g3' = None" "predicted_winner_games g3' = None"
        "round g3' = 0" "slot g3' = 3" "conference g3' = conference ex_G3"
    by blast
  from a(1) have "g = gamesToRecord (pendingGames ex_state) ex_G2 w"
    by (auto simp: setWinnerLocal_def Let_def split: if_splits option.splits prod.splits)
  with a s have first: "\<exists>st' ms' g3'.
      setWinnerLocal ex_env ex_state ex_G2 A = Some (st', ''LAL'', 1) \<and> matches st' = Some ms'
      \<and> node ms' ''G3'' = Some g3'
      \<and> team_b g3' = Some ''GSW''
      \<and> team_b_name g3' = Defined ''Warriors''
      \<and> team_b_code g3' = Defined ''GSW''
      \<and> team_b_logo_url g3' = Defined ''/logos/gsw.png''
      \<and> team_b_primary_color g3' = Defined ''#1D428A''
      \<and> team_b_secondary_color g3' = Defined ''#FFC72C''
      \<and> predicted_winner g3' = None \<and> predicted_winner_games g3' = None
      \<and> round g3' = 0 \<and> slot g3' = 3 \<and> conference g3' = ''west''"
    by (intro exI[of _ st'] exI[of _ ms'] exI[of _ g3']) simp
  from playin_loser_goes_to_game3[OF m, of ex_env ex_A rounds roundMatches game3 A "Some ex_graph" B "''MIA''" "Some ex_graph"]
    t(5)
  have "updatePlayInGame3LoserInState (Some ex_graph) ex_A B ''MIA'' (Some ex_graph) = Some ex_graph"
    by blast
  with first show ?thesis by blast
qed

subsection \<open>C3: the recorded winner is a participant\<close>

text \<open>
  Claim C3.  Let \<open>mt\<close> be a node of a graph whose ids are pairwise different, and let
  its forward link not point at \<open>mt\<close> itself (the bracket is a forest).  If the guards of
  \<open>handleSetWinner\<close> pass (a bracket id, edit rights) and both participants of \<open>mt\<close> are
  assigned, then after the local mutation the node with the id of \<open>mt\<close> still has the
  participants of \<open>mt\<close>, and its \<open>predicted_winner\<close> is the picked team, which is its
  \<open>team_a\<close> or its \<open>team_b\<close>.  If a participant is missing (null, or the empty string),
  \<open>handleSetWinner\<close> returns the state it was given, pending selections included, and
  sends no request.
\<close>

theorem setWinner_winner_is_participant:
  assumes "matches st = Some ms" "mt \<in> set (all_matches ms)" "ids_distinct ms"
    and "next_match_id mt \<noteq> Defined (id_m mt)"
  shows "(truthy (bracketId env) \<and> canEdit env st \<and> truthy (team_a mt) \<and> truthy (team_b mt) \<longrightarrow>
           (\<exists>st' w g ms' m'.
              setWinnerLocal env st mt team = Some (st', w, g) \<and> matches st' = Some ms'
              \<and> node ms' (id_m mt) = Some m'
              \<and> team_a m' = team_a mt \<and> team_b m' = team_b mt
              \<and> predicted_winner m' = Some w
              \<and> (predicted_winner m' = team_a m' \<or> predicted_winner m' = team_b m')))
       \<and> (\<not> truthy (team_a mt) \<or> \<not> truthy (team_b mt) \<longrightarrow>
            handleSetWinner env backend st mt team = (st, []))"
proof (intro conjI impI)
  assume h: "truthy (bracketId env) \<and> canEdit env st \<and> truthy (team_a mt) \<and> truthy (team_b mt)"
  then obtain ta tb where t: "team_a mt = Some ta" "ta \<noteq> []" "team_b mt = Some tb" "tb \<noteq> []"
    by (auto simp: truthy_def split: option.splits)
  define w where "w = (if team = A then ta else tb)"
  define l where "l = (if team = A then tb else ta)"
  define g where "g = gamesToRecord (pendingGames st) mt w"
  define F where "F = (\<lambda>n. play_step (Some ms) mt (other team) l (fwd_step mt team w (own_step mt w g n)))"
  define ms' where "ms' = map_graph F ms"
  define st' where "st' = st\<lparr>matches := Some ms', pendingGames := (pendingGames st)(id_m mt := None)\<rparr>"
  have loc: "setWinnerLocal env st mt team = Some (st', w, g)"
    using h setWinnerLocal_Some[OF _ _ assms(1) t w_def l_def g_def]
    by (simp add: st'_def ms'_def F_def)
  have idF: "\<And>m. id_m (F m) = id_m m" by (simp add: F_def)
  have nd: "node ms' (id_m mt) = Some (F mt)"
    by (simp add: ms'_def node_map_graph[of F, OF idF] node_distinct[OF assms(3,2)])
  have own: "own_step mt w g mt = mt\<lparr>predicted_winner := Some w, predicted_winner_games := Some g\<rparr>"
    by (simp add: own_step_def upd_if_def)
  have Fm: "F mt = mt\<lparr>predicted_winner := Some w, predicted_winner_games := Some g\<rparr>"
    unfolding F_def
    by (simp add: play_step_other[OF assms(3,2)] fwd_step_other assms(4)) (simp add: own)
  have "predicted_winner (F mt) = team_a (F mt) \<or> predicted_winner (F mt) = team_b (F mt)"
    by (simp add: Fm t w_def)
  with loc nd Fm show "\<exists>st' w g ms' m'.
              setWinnerLocal env st mt team = Some (st', w, g) \<and> matches st' = Some ms'
              \<and> node ms' (id_m mt) = Some m'
              \<and> team_a m' = team_a mt \<and> team_b m' = team_b mt
              \<and> predicted_winner m' = Some w
              \<and> (predicted_winner m' = team_a m' \<or> predicted_winner m' = team_b m')"
    by (intro exI[of _ st'] exI[of _ w] exI[of _ g] exI[of _ ms'] exI[of _ "F mt"])
       (simp add: st'_def)
next
  assume "\<not> truthy (team_a mt) \<or> \<not> truthy (team_b mt)"
  then show "handleSetWinner env backend st mt team = (st, [])"
    by (simp add: handleSetWinner_def setWinnerLocal_None)
qed

theorem setWinner_winner_is_participant_witness:
  "(\<exists>st' w g ms' m'.
      setWinnerLocal ex_env ex_state ex_A A = Some (st', w, g) \<and> matches st' = Some ms'
      \<and> node ms' (id_m ex_A) = Some m'
      \<and> team_a m' = team_a ex_A \<and> team_b m' = team_b ex_A
      \<and> predicted_winner m' = Some w
      \<and> (predicted_winner m' = team_a m' \<or> predicted_winner m' = team_b m'))
   \<and> handleSetWinner ex_env ex_accepting ex_state ex_B A = (ex_state, [])"
proof -
  have m: "matches ex_state = Some ex_graph" by (simp add: ex_state_def)
  have a: "ex_A \<in> set (all_matches ex_graph)" "ex_B \<in> set (all_matches ex_graph)"
    by (simp_all add: ex_graph_nodes)
  have n: "next_match_id ex_A \<noteq> Defined (id_m ex_A)" "next_match_id ex_B \<noteq> Defined (id_m ex_B)"
    by (simp_all add: ex_A_def ex_B_def tbd_def)
  have t: "truthy (team_a ex_A)" "truthy (team_b ex_A)" "\<not> truthy (team_a ex_B)"
    by (simp_all add: truthy_def ex_A_def ex_B_def tbd_def)
  from setWinner_winner_is_participant[OF m a(1) ex_graph_distinct n(1), of ex_env A]
    setWinner_winner_is_participant[OF m a(2) ex_graph_distinct n(2), of ex_env A ex_accepting]
    t ex_canEdit ex_bracketId
  show ?thesis by blast
qed

subsection \<open>C4: a rejected request is meant to show an error and reload\<close>

text \<open>
  Claim C4 says that after a failed PATCH the controller surfaces an error message and
  reloads the bracket, so that the graph is the server's again.  The theorem evaluates
  the three handlers (\<open>handleSetWinner\<close>, \<open>handleSelectGames\<close> on a match with a recorded
  winner, \<open>handleUndo\<close>) on every input where the local mutation took place, the PATCH
  failed and the reload succeeded.  The graph and the bracket of the final state are
  the ones the backend returned, as the claim says; the error message of the final
  state is null.  The handler stores the message of the failed PATCH with \<open>setError\<close>
  and then calls \<open>loadBracket\<close>, whose first update is \<open>setError(null)\<close>, so the message
  is overwritten before the reload is even sent: the code does not surface the error
  that the claim, and the handler's own \<open>setError\<close> call, ask for.
\<close>

theorem failed_patch_message_lost:
  assumes "bracketId env = Some bid" "bid \<noteq> []" "get backend (''/bracket/'' @ bid) = Inr data"
  shows
   "(\<forall>st1 w g err.
       setWinnerLocal env st mt team = Some (st1, w, g)
       \<and> patch backend (match_path bid mt) (SetWinnerBody w g) = Inl err \<longrightarrow>
         matches (fst (handleSetWinner env backend st mt team)) = Some (resp_matches data)
         \<and> bracket (fst (handleSetWinner env backend st mt team)) = Some (resp_bracket data)
         \<and> error (fst (handleSetWinner env backend st mt team)) = None)
    \<and> (\<forall>st1 w err.
       selectGamesLocal env st mt v = Recorded st1 w
       \<and> patch backend (match_path bid mt) (SetWinnerBody w v) = Inl err \<longrightarrow>
         matches (fst (handleSelectGames env backend st mt v)) = Some (resp_matches data)
         \<and> bracket (fst (handleSelectGames env backend st mt v)) = Some (resp_bracket data)
         \<and> error (fst (handleSelectGames env backend st mt v)) = None)
    \<and> (\<forall>st1 err.
       undoLocal env st mt = Some st1
       \<and> patch backend (match_path bid mt) UndoBody = Inl err \<longrightarrow>
         matches (fst (handleUndo env backend st mt)) = Some (resp_matches data)
         \<and> bracket (fst (handleUndo env backend st mt)) = Some (resp_bracket data)
         \<and> error (fst (handleUndo env backend st mt)) = None)"
proof (intro conjI allI impI)
  fix st1 w g err
  assume h: "setWinnerLocal env st mt team = Some (st1, w, g)
       \<and> patch backend (match_path bid mt) (SetWinnerBody w g) = Inl err"
  note r = handleSetWinner_rejected[OF h[THEN conjunct1] assms(1) h[THEN conjunct2]]
  from loadBracket_ok[OF assms]
  show "matches (fst (handleSetWinner env backend st mt team)) = Some (resp_matches data)"
    and "bracket (fst (handleSetWinner env backend st mt team)) = Some (resp_bracket data)"
    and "error (fst (handleSetWinner env backend st mt team)) = None"
    by (simp_all add: r)
next
  fix st1 w err
  assume h: "selectGamesLocal env st mt v = Recorded st1 w
       \<and> patch backend (match_path bid mt) (SetWinnerBody w v) = Inl err"
  note r = handleSelectGames_rejected[OF h[THEN conjunct1] assms(1) h[THEN conjunct2]]
  from loadBracket_ok[OF assms]
  show "matches (fst (handleSelectGames env backend st mt v)) = Some (resp_matches data)"
    and "bracket (fst (handleSelectGames env backend st mt v)) = Some (resp_bracket data)"
    and "error (fst (handleSelectGames env backend st mt v)) = None"
    by (simp_all add: r)
next
  fix st1 err
  assume h: "undoLocal env st mt = Some st1
       \<and> patch backend (match_path bid mt) UndoBody = Inl err"
  note r = handleUndo_rejected[OF h[THEN conjunct1] assms(1) h[THEN conjunct2]]
  from loadBracket_ok[OF assms]
  show "matches (fst (handleUndo env backend st mt)) = Some (resp_matches data)"
    and "bracket (fst (handleUndo env backend st mt)) = Some (resp_bracket data)"
    and "error (fst (handleUndo env backend st mt)) = None"
    by (simp_all add: r)
qed

theorem failed_patch_message_lost_witness:
  "patch ex_server ''/bracket/bk/match/A'' (SetWinnerBody ''BOS'' 5) = Inl \<lparr>message = ''Request failed''\<rparr>
   \<and> snd (handleSetWinner ex_env ex_server ex_state ex_A A) =
        [\<lparr>path = ''/bracket/bk/match/A'', body = SetWinnerBody ''BOS'' 5\<rparr>]
   \<and> error (fst (handleSetWinner ex_env ex_server ex_state ex_A A)) = None
   \<and> matches (fst (handleSetWinner ex_env ex_server ex_state ex_A A)) = Some ex_server_graph
   \<and> bracket (fst (handleSetWinner ex_env ex_server ex_state ex_A A)) = Some ex_bracket
   \<and> error (fst (handleSelectGames ex_env ex_server ex_state_ready ex_B_ready 7)) = None
   \<and> matches (fst (handleSelectGames ex_env ex_server ex_state_ready ex_B_ready 7)) = Some ex_server_graph
   \<and> error (fst (handleUndo ex_admin ex_server ex_master ex_B)) = None
   \<and> matches (fst (handleUndo ex_admin ex_server ex_master ex_B)) = Some ex_server_graph"
proof -
  have b: "''bk'' \<noteq> []" by simp
  have srv: "get ex_server p = Inr \<lparr>resp_bracket = ex_bracket, resp_matches = ex_server_graph\<rparr>"
    "patch ex_server p q = Inl \<lparr>message = ''Request failed''\<rparr>" for p q
    by (simp_all add: ex_server_def)
  \<comment> \<open>a winner pick\<close>
  obtain s1 where l1: "setWinnerLocal ex_env ex_state ex_A A = Some (s1, ''BOS'', 5)"
    using ex_pick_A by simp
  from failed_patch_message_lost[where st=ex_state and mt=ex_A and team=A and backend=ex_server,
      OF ex_paths(1) b srv(1), THEN conjunct1, rule_format, OF conjI[OF l1 srv(2)]]
  have c1: "matches (fst (handleSetWinner ex_env ex_server ex_state ex_A A)) = Some ex_server_graph"
    "bracket (fst (handleSetWinner ex_env ex_server ex_state ex_A A)) = Some ex_bracket"
    "error (fst (handleSetWinner ex_env ex_server ex_state ex_A A)) = None"
    by simp_all
  have sent: "snd (handleSetWinner ex_env ex_server ex_state ex_A A) =
        [\<lparr>path = ''/bracket/bk/match/A'', body = SetWinnerBody ''BOS'' 5\<rparr>]"
    using handleSetWinner_sent[OF l1, of ex_server] by (simp add: ex_paths)
  \<comment> \<open>a series length\<close>
  have ce: "canEdit ex_env ex_state_ready"
    using canEdit_cong[of ex_state_ready ex_state ex_env] ex_canEdit
    by (simp add: ex_state_ready_def)
  obtain s2 where l2: "selectGamesLocal ex_env ex_state_ready ex_B_ready 7 = Recorded s2 ''NYK''"
    using ex_bracketId ce
    by (simp add: selectGamesLocal_def ex_state_ready_def ex_B_ready_def ex_B_def tbd_def)
  from failed_patch_message_lost[where st=ex_state_ready and mt=ex_B_ready and v=7 and backend=ex_server,
      OF ex_paths(1) b srv(1), THEN conjunct2, THEN conjunct1, rule_format, OF conjI[OF l2 srv(2)]]
  have c2: "matches (fst (handleSelectGames ex_env ex_server ex_state_ready ex_B_ready 7)) = Some ex_server_graph"
    "error (fst (handleSelectGames ex_env ex_server ex_state_ready ex_B_ready 7)) = None"
    by simp_all
  \<comment> \<open>an undo\<close>
  have ok: "truthy (bracketId ex_admin)" "matches ex_master = Some ex_graph" "isAdmin ex_admin"
      "isMasterBracket ex_master"
    by (simp_all add: truthy_def ex_admin_def ex_master_def ex_state_def isAdmin_def
        isMasterBracket_def truthy_bool_def)
  from undoLocal_Some[OF ok, of ex_B] obtain s3 where l3: "undoLocal ex_admin ex_master ex_B = Some s3"
    by simp
  from failed_patch_message_lost[where st=ex_master and mt=ex_B and backend=ex_server,
      OF ex_paths(2) b srv(1), THEN conjunct2, THEN conjunct2, rule_format, OF conjI[OF l3 srv(2)]]
  have c3: "matches (fst (handleUndo ex_admin ex_server ex_master ex_B)) = Some ex_server_graph"
    "error (fst (handleUndo ex_admin ex_server ex_master ex_B)) = None"
    by simp_all
  from c1 c2 c3 sent srv(2) show ?thesis by simp
qed

subsection \<open>C5: a play-in match is always one game\<close>

text \<open>
  Claim C5.  Let \<open>mt\<close> be a round-0 match.  \<open>handleSelectGames\<close> on \<open>mt\<close> returns the
  state it was given (graph and pending selections) and sends no request, whatever value
  is asked for.  Whenever the local mutation of \<open>handleSetWinner\<close> on \<open>mt\<close> takes place,
  the series length it records is 1, whatever the pending selections hold: 1 goes into
  the request, and 1 is written to the node of \<open>mt\<close> (for a node of a graph with pairwise
  different ids and no link to itself).
\<close>

theorem playin_games_always_one:
  assumes "round mt = 0"
  shows "handleSelectGames env backend st mt gamesValue = (st, [])
     \<and> (\<forall>st' w g. setWinnerLocal env st mt team = Some (st', w, g) \<longrightarrow>
          g = 1
          \<and> (\<exists>bid. bracketId env = Some bid
                \<and> snd (handleSetWinner env backend st mt team) =
                    [\<lparr>path = match_path bid mt, body = SetWinnerBody w 1\<rparr>])
          \<and> (\<forall>ms. matches st = Some ms \<and> mt \<in> set (all_matches ms) \<and> ids_distinct ms
                  \<and> next_match_id mt \<noteq> Defined (id_m mt) \<longrightarrow>
                (\<exists>ms' m'. matches st' = Some ms' \<and> node ms' (id_m mt) = Some m'
                   \<and> predicted_winner m' = Some w \<and> predicted_winner_games m' = Some 1)))"
proof (intro conjI allI impI)
  show "handleSelectGames env backend st mt gamesValue = (st, [])"
    using assms by (rule handleSelectGames_round0)
next
  fix st' w g
  assume loc: "setWinnerLocal env st mt team = Some (st', w, g)"
  from loc show g1: "g = 1"
    by (rule setWinnerLocal_elim) (simp add: gamesToRecord_def assms)
  from handleSetWinner_sent[OF loc, of backend] g1
  show "\<exists>bid. bracketId env = Some bid
                \<and> snd (handleSetWinner env backend st mt team) =
                    [\<lparr>path = match_path bid mt, body = SetWinnerBody w 1\<rparr>]"
    by auto
  fix ms
  assume wf: "matches st = Some ms \<and> mt \<in> set (all_matches ms) \<and> ids_distinct ms
                  \<and> next_match_id mt \<noteq> Defined (id_m mt)"
  from loc show "\<exists>ms' m'. matches st' = Some ms' \<and> node ms' (id_m mt) = Some m'
                   \<and> predicted_winner m' = Some w \<and> predicted_winner_games m' = Some 1"
  proof (rule setWinnerLocal_elim)
    fix ms0 ta tb
    assume a: "matches st = Some ms0"
      "st' = st\<lparr>matches :=
                Some (map_graph (\<lambda>n. play_step (Some ms0) mt (other team) (if team = A then tb else ta)
                                        (fwd_step mt team w (own_step mt w g n))) ms0),
              pendingGames := (pendingGames st)(id_m mt := None)\<rparr>"
    with wf have e: "ms0 = ms" by simp
    from wf have "node (map_graph (\<lambda>n. play_step (Some ms) mt (other team) (if team = A then tb else ta)
                                        (fwd_step mt team w (own_step mt w g n))) ms) (id_m mt)
        = Some (mt\<lparr>predicted_winner := Some w, predicted_winner_games := Some g\<rparr>)"
      by (intro own_node_after) simp_all
    with a(2) e g1 show ?thesis by simp
  qed
qed

theorem playin_games_always_one_witness:
  "handleSelectGames ex_env ex_accepting ex_pending_G2 ex_G2 7 = (ex_pending_G2, [])
   \<and> pendingGames ex_pending_G2 ''G2'' = Some 7
   \<and> (\<exists>st' ms' m'. setWinnerLocal ex_env ex_pending_G2 ex_G2 A = Some (st', ''LAL'', 1)
         \<and> snd (handleSetWinner ex_env ex_accepting ex_pending_G2 ex_G2 A) =
             [\<lparr>path = ''/bracket/bk/match/G2'', body = SetWinnerBody ''LAL'' 1\<rparr>]
         \<and> matches st' = Some ms' \<and> node ms' ''G2'' = Some m'
         \<and> predicted_winner m' = Some ''LAL'' \<and> predicted_winner_games m' = Some 1)"
proof -
  have r: "round ex_G2 = 0" by (simp add: ex_G2_def tbd_def)
  have m: "matches ex_pending_G2 = Some ex_graph" by (simp add: ex_pending_G2_def ex_state_def)
  have ce: "canEdit ex_env ex_pending_G2"
    by (simp add: canEdit_def isOwner_def ex_pending_G2_def ex_state_def ex_bracket_def truthy_bool_def)
  have t: "team_a ex_G2 = Some ''LAL''" "team_b ex_G2 = Some ''GSW''"
    by (simp_all add: ex_G2_def)
  obtain st' where loc: "setWinnerLocal ex_env ex_pending_G2 ex_G2 A = Some (st', ''LAL'', gamesToRecord (pendingGames ex_pending_G2) ex_G2 ''LAL'')"
    using setWinnerLocal_Some[OF ex_bracketId ce m t(1) _ t(2) _ refl refl refl, of A] by simp
  have wf: "matches ex_pending_G2 = Some ex_graph \<and> ex_G2 \<in> set (all_matches ex_graph) \<and> ids_distinct ex_graph
                  \<and> next_match_id ex_G2 \<noteq> Defined (id_m ex_G2)"
    by (simp add: m ex_graph_nodes ex_graph_distinct) (simp add: ex_G2_def)
  have p: "match_path ''bk'' ex_G2 = ''/bracket/bk/match/G2''" "id_m ex_G2 = ''G2''"
    "bracketId ex_env = Some ''bk''"
    by (simp_all add: match_path_def ex_G2_def ex_env_def)
  from playin_games_always_one[OF r, of ex_env ex_accepting ex_pending_G2 7 A] loc wf p
  have "handleSelectGames ex_env ex_accepting ex_pending_G2 ex_G2 7 = (ex_pending_G2, [])"
    and "gamesToRecord (pendingGames ex_pending_G2) ex_G2 ''LAL'' = 1"
    and "snd (handleSetWinner ex_env ex_accepting ex_pending_G2 ex_G2 A) =
             [\<lparr>path = ''/bracket/bk/match/G2'', body = SetWinnerBody ''LAL'' 1\<rparr>]"
    and "\<exists>ms' m'. matches st' = Some ms' \<and> node ms' ''G2'' = Some m'
         \<and> predicted_winner m' = Some ''LAL'' \<and> predicted_winner_games m' = Some 1"
    by auto
  moreover have "pendingGames ex_pending_G2 ''G2'' = Some 7"
    by (simp add: ex_pending_G2_def)
  ultimately show ?thesis using loc by auto
qed

subsection \<open>C6: which series length is recorded\<close>

text \<open>
  Claim C6.  Let \<open>mt\<close> be at a round other than 0 (so at every round above 0).
  Whenever the local mutation of \<open>handleSetWinner\<close> on \<open>mt\<close> takes place, with \<open>w\<close> the
  picked team and \<open>g\<close> the series length it records:
  \<^item> if \<open>mt\<close> already has \<open>w\<close> as \<open>predicted_winner\<close> and a \<open>predicted_winner_games\<close>,
    \<open>g\<close> is that recorded length;
  \<^item> otherwise, if a pending selection exists for the id of \<open>mt\<close>, \<open>g\<close> is that selection;
  \<^item> otherwise \<open>g\<close> is 4;
  \<^item> the pending selection for the id of \<open>mt\<close> is gone afterwards, \<open>g\<close> goes into the
    request, and \<open>g\<close> is written to the node of \<open>mt\<close> (for a node of a graph with pairwise
    different ids and no link to itself).

  When the guards pass and \<open>mt\<close> has no recorded winner, \<open>handleSelectGames\<close> changes the
  pending selections only (the graph is the same and no request is sent); picking a
  winner right afterwards records the selected length and removes the pending entry.
\<close>

theorem series_length_precedence:
  assumes "round mt \<noteq> 0"
  shows "(\<forall>st' w g. setWinnerLocal env st mt team = Some (st', w, g) \<longrightarrow>
            src_team team mt = Some w
            \<and> (\<forall>e. predicted_winner mt = Some w \<and> predicted_winner_games mt = Some e \<longrightarrow> g = e)
            \<and> (\<forall>p. (predicted_winner mt \<noteq> Some w \<or> predicted_winner_games mt = None)
                    \<and> pendingGames st (id_m mt) = Some p \<longrightarrow> g = p)
            \<and> ((predicted_winner mt \<noteq> Some w \<or> predicted_winner_games mt = None)
                    \<and> pendingGames st (id_m mt) = None \<longrightarrow> g = 4)
            \<and> pendingGames st' (id_m mt) = None
            \<and> (\<exists>bid. bracketId env = Some bid
                  \<and> snd (handleSetWinner env backend st mt team) =
                      [\<lparr>path = match_path bid mt, body = SetWinnerBody w g\<rparr>])
            \<and> (\<forall>ms. matches st = Some ms \<and> mt \<in> set (all_matches ms) \<and> ids_distinct ms
                    \<and> next_match_id mt \<noteq> Defined (id_m mt) \<longrightarrow>
                  (\<exists>ms' m'. matches st' = Some ms' \<and> node ms' (id_m mt) = Some m'
                     \<and> predicted_winner m' = Some w \<and> predicted_winner_games m' = Some g)))
     \<and> (truthy (bracketId env) \<and> matches st \<noteq> None \<and> canEdit env st
          \<and> \<not> truthy (predicted_winner mt) \<longrightarrow>
          handleSelectGames env backend st mt v =
            (st\<lparr>pendingGames := (pendingGames st)(id_m mt \<mapsto> v)\<rparr>, [])
          \<and> matches (fst (handleSelectGames env backend st mt v)) = matches st
          \<and> (truthy (team_a mt) \<and> truthy (team_b mt) \<longrightarrow>
               (\<exists>st2 w. setWinnerLocal env (fst (handleSelectGames env backend st mt v)) mt team
                            = Some (st2, w, v)
                  \<and> pendingGames st2 (id_m mt) = None)))"
proof (intro conjI allI impI)
  fix st' w g
  assume loc: "setWinnerLocal env st mt team = Some (st', w, g)"
  from loc show "src_team team mt = Some w"
    by (rule setWinnerLocal_elim) (simp add: src_team_def)
  from loc have g: "g = gamesToRecord (pendingGames st) mt w"
    by (rule setWinnerLocal_elim)
  { fix e assume "predicted_winner mt = Some w \<and> predicted_winner_games mt = Some e"
    with g assms show "g = e" by (simp add: gamesToRecord_def) }
  { fix p assume "(predicted_winner mt \<noteq> Some w \<or> predicted_winner_games mt = None)
                    \<and> pendingGames st (id_m mt) = Some p"
    with g assms show "g = p" by (auto simp: gamesToRecord_def) }
  { assume "(predicted_winner mt \<noteq> Some w \<or> predicted_winner_games mt = None)
                    \<and> pendingGames st (id_m mt) = None"
    with g assms show "g = 4" by (auto simp: gamesToRecord_def) }
  from loc show "pendingGames st' (id_m mt) = None"
    by (rule setWinnerLocal_elim) simp
  from handleSetWinner_sent[OF loc, of backend]
  show "\<exists>bid. bracketId env = Some bid
                  \<and> snd (handleSetWinner env backend st mt team) =
                      [\<lparr>path = match_path bid mt, body = SetWinnerBody w g\<rparr>]"
    by auto
  fix ms
  assume wf: "matches st = Some ms \<and> mt \<in> set (all_matches ms) \<and> ids_distinct ms
                  \<and> next_match_id mt \<noteq> Defined (id_m mt)"
  from loc show "\<exists>ms' m'. matches st' = Some ms' \<and> node ms' (id_m mt) = Some m'
                   \<and> predicted_winner m' = Some w \<and> predicted_winner_games m' = Some g"
  proof (rule setWinnerLocal_elim)
    fix ms0 ta tb
    assume a: "matches st = Some ms0"
      "st' = st\<lparr>matches :=
                Some (map_graph (\<lambda>n. play_step (Some ms0) mt (other team) (if team = A then tb else ta)
                                        (fwd_step mt team w (own_step mt w g n))) ms0),
              pendingGames := (pendingGames st)(id_m mt := None)\<rparr>"
    with wf have e: "ms0 = ms" by simp
    from wf have "node (map_graph (\<lambda>n. play_step (Some ms) mt (other team) (if team = A then tb else ta)
                                        (fwd_step mt team w (own_step mt w g n))) ms) (id_m mt)
        = Some (mt\<lparr>predicted_winner := Some w, predicted_winner_games := Some g\<rparr>)"
      by (intro own_node_after) simp_all
    with a(2) e show ?thesis by simp
  qed
next
  assume h: "truthy (bracketId env) \<and> matches st \<noteq> None \<and> canEdit env st
          \<and> \<not> truthy (predicted_winner mt)"
  define st1 where "st1 = st\<lparr>pendingGames := (pendingGames st)(id_m mt \<mapsto> v)\<rparr>"
  from h assms show hs: "handleSelectGames env backend st mt v =
            (st\<lparr>pendingGames := (pendingGames st)(id_m mt \<mapsto> v)\<rparr>, [])"
    by (intro truthy_pending_only) simp_all
  then show "matches (fst (handleSelectGames env backend st mt v)) = matches st"
    by simp
  assume t: "truthy (team_a mt) \<and> truthy (team_b mt)"
  then obtain ta tb where tt: "team_a mt = Some ta" "ta \<noteq> []" "team_b mt = Some tb" "tb \<noteq> []"
    by (auto simp: truthy_def split: option.splits)
  from h obtain ms where ms: "matches st1 = Some ms" by (auto simp: st1_def)
  have ce: "canEdit env st1" using h canEdit_cong[of st1 st env] by (simp add: st1_def)
  define w where "w = (if team = A then ta else tb)"
  have wne: "w \<noteq> []" using tt by (simp add: w_def)
  from h have "predicted_winner mt \<noteq> Some w"
    using wne by (auto simp: truthy_def split: option.splits)
  then have g: "gamesToRecord (pendingGames st1) mt w = v"
    using assms by (simp add: gamesToRecord_def st1_def)
  from h have b: "truthy (bracketId env)" by simp
  from setWinnerLocal_Some[OF b ce ms tt w_def refl refl] g
  obtain st2 where s2: "setWinnerLocal env st1 mt team = Some (st2, w, v)"
     "st2 = st1\<lparr>matches :=
                Some (map_graph (\<lambda>n. play_step (Some ms) mt (other team) (if team = A then tb else ta)
                                        (fwd_step mt team w (own_step mt w v n))) ms),
              pendingGames := (pendingGames st1)(id_m mt := None)\<rparr>"
    by simp
  then have "pendingGames st2 (id_m mt) = None" by simp
  with s2(1) hs show "\<exists>st2 w. setWinnerLocal env (fst (handleSelectGames env backend st mt v)) mt team
                            = Some (st2, w, v)
                  \<and> pendingGames st2 (id_m mt) = None"
    by (auto simp: st1_def)
qed

theorem series_length_precedence_witness:
  "(\<exists>st'. setWinnerLocal ex_env ex_state ex_A_picked A = Some (st', ''BOS'', 7))
   \<and> (\<exists>st'. setWinnerLocal ex_env ex_state ex_A_picked B = Some (st', ''MIA'', 5)
          \<and> pendingGames st' ''A'' = None)
   \<and> (\<exists>st'. setWinnerLocal ex_env ex_no_pending ex_A_picked B = Some (st', ''MIA'', 4))
   \<and> (\<exists>st' ms' m'. setWinnerLocal ex_env ex_state ex_A A = Some (st', ''BOS'', 5)
          \<and> snd (handleSetWinner ex_env ex_accepting ex_state ex_A A) =
              [\<lparr>path = ''/bracket/bk/match/A'', body = SetWinnerBody ''BOS'' 5\<rparr>]
          \<and> matches st' = Some ms' \<and> node ms' ''A'' = Some m'
          \<and> predicted_winner m' = Some ''BOS'' \<and> predicted_winner_games m' = Some 5)
   \<and> handleSelectGames ex_env ex_accepting ex_state ex_A 6 =
        (ex_state\<lparr>pendingGames := (pendingGames ex_state)(''A'' \<mapsto> 6)\<rparr>, [])
   \<and> (\<exists>st2. setWinnerLocal ex_env (fst (handleSelectGames ex_env ex_accepting ex_state ex_A 6)) ex_A A
                = Some (st2, ''BOS'', 6)
          \<and> pendingGames st2 ''A'' = None)"
proof -
  have r: "round ex_A_picked \<noteq> 0" "round ex_A \<noteq> 0"
    by (simp_all add: ex_A_picked_def ex_A_def tbd_def)
  have m: "matches ex_state = Some ex_graph" "matches ex_no_pending = Some ex_graph"
    by (simp_all add: ex_no_pending_def ex_state_def)
  have ce: "canEdit ex_env ex_no_pending"
    using canEdit_cong[of ex_no_pending ex_state ex_env] ex_canEdit by (simp add: ex_no_pending_def)
  have t: "team_a ex_A_picked = Some ''BOS''" "team_b ex_A_picked = Some ''MIA''"
    "team_a ex_A = Some ''BOS''" "team_b ex_A = Some ''MIA''"
    by (simp_all add: ex_A_picked_def ex_A_def)
  have f: "predicted_winner ex_A_picked = Some ''BOS''" "predicted_winner_games ex_A_picked = Some 7"
    "id_m ex_A_picked = ''A''" "id_m ex_A = ''A''" "predicted_winner ex_A = None"
    "pendingGames ex_state ''A'' = Some 5" "pendingGames ex_no_pending ''A'' = None"
    "match_path ''bk'' ex_A = ''/bracket/bk/match/A''" "bracketId ex_env = Some ''bk''"
    by (simp_all add: ex_A_picked_def ex_A_def tbd_def ex_state_def ex_no_pending_def
        match_path_def ex_env_def)
  note th = series_length_precedence[THEN conjunct1, rule_format]
  \<comment> \<open>the recorded length for the same winner\<close>
  from ex_local[OF m(1) ex_canEdit t(1) _ t(2), of A] obtain s1 g1 where
    l1: "setWinnerLocal ex_env ex_state ex_A_picked A = Some (s1, ''BOS'', g1)" by auto
  from th[OF r(1) l1, of ex_accepting] f have "g1 = 7" by simp
  with l1 have c1: "\<exists>st'. setWinnerLocal ex_env ex_state ex_A_picked A = Some (st', ''BOS'', 7)"
    by auto
  \<comment> \<open>another winner: the pending selection\<close>
  from ex_local[OF m(1) ex_canEdit t(1) _ t(2), of B] obtain s2 g2 where
    l2: "setWinnerLocal ex_env ex_state ex_A_picked B = Some (s2, ''MIA'', g2)" by auto
  from th[OF r(1) l2, of ex_accepting] f have "g2 = 5" "pendingGames s2 ''A'' = None" by simp_all
  with l2 have c2: "\<exists>st'. setWinnerLocal ex_env ex_state ex_A_picked B = Some (st', ''MIA'', 5)
          \<and> pendingGames st' ''A'' = None"
    by auto
  \<comment> \<open>nothing recorded, nothing pending: the default\<close>
  from ex_local[OF m(2) ce t(1) _ t(2), of B] obtain s3 g3 where
    l3: "setWinnerLocal ex_env ex_no_pending ex_A_picked B = Some (s3, ''MIA'', g3)" by auto
  from th[OF r(1) l3, of ex_accepting] f have "g3 = 4" by simp
  with l3 have c3: "\<exists>st'. setWinnerLocal ex_env ex_no_pending ex_A_picked B = Some (st', ''MIA'', 4)"
    by auto
  \<comment> \<open>the node and the request\<close>
  have wf: "matches ex_state = Some ex_graph \<and> ex_A \<in> set (all_matches ex_graph) \<and> ids_distinct ex_graph
                  \<and> next_match_id ex_A \<noteq> Defined (id_m ex_A)"
    by (simp add: m ex_graph_nodes ex_graph_distinct) (simp add: ex_A_def)
  from ex_local[OF m(1) ex_canEdit t(3) _ t(4), of A] obtain s4 g4 where
    l4: "setWinnerLocal ex_env ex_state ex_A A = Some (s4, ''BOS'', g4)" by auto
  from th[OF r(2) l4, of ex_accepting] f wf
  have "g4 = 5"
    and "snd (handleSetWinner ex_env ex_accepting ex_state ex_A A) =
              [\<lparr>path = ''/bracket/bk/match/A'', body = SetWinnerBody ''BOS'' g4\<rparr>]"
    and "\<exists>ms' m'. matches s4 = Some ms' \<and> node ms' ''A'' = Some m'
          \<and> predicted_winner m' = Some ''BOS'' \<and> predicted_winner_games m' = Some g4"
    by auto
  with l4 have c4: "\<exists>st' ms' m'. setWinnerLocal ex_env ex_state ex_A A = Some (st', ''BOS'', 5)
          \<and> snd (handleSetWinner ex_env ex_accepting ex_state ex_A A) =
              [\<lparr>path = ''/bracket/bk/match/A'', body = SetWinnerBody ''BOS'' 5\<rparr>]
          \<and> matches st' = Some ms' \<and> node ms' ''A'' = Some m'
          \<and> predicted_winner m' = Some ''BOS'' \<and> predicted_winner_games m' = Some 5"
    by auto
  \<comment> \<open>choosing the length first, the winner afterwards\<close>
  have g: "truthy (bracketId ex_env) \<and> matches ex_state \<noteq> None \<and> canEdit ex_env ex_state
          \<and> \<not> truthy (predicted_winner ex_A)"
    using ex_bracketId ex_canEdit by (simp add: m truthy_def f)
  have tt: "truthy (team_a ex_A) \<and> truthy (team_b ex_A)" by (simp add: truthy_def t)
  from series_length_precedence[THEN conjunct2, rule_format, OF r(2) g, of ex_accepting 6 A] tt
  obtain st2 w where
    c5: "handleSelectGames ex_env ex_accepting ex_state ex_A 6 =
        (ex_state\<lparr>pendingGames := (pendingGames ex_state)(id_m ex_A \<mapsto> 6)\<rparr>, [])"
    and l6: "setWinnerLocal ex_env (fst (handleSelectGames ex_env ex_accepting ex_state ex_A 6)) ex_A A
                = Some (st2, w, 6)" "pendingGames st2 (id_m ex_A) = None"
    by blast
  from th[OF r(2) l6(1), of ex_accepting] have "src_team A ex_A = Some w" by simp
  then have "w = ''BOS''" by (simp add: src_team_def t)
  with l6 f have c6: "\<exists>st2. setWinnerLocal ex_env (fst (handleSelectGames ex_env ex_accepting ex_state ex_A 6)) ex_A A
                = Some (st2, ''BOS'', 6)
          \<and> pendingGames st2 ''A'' = None"
    by auto
  from c5 f have c5': "handleSelectGames ex_env ex_accepting ex_state ex_A 6 =
        (ex_state\<lparr>pendingGames := (pendingGames ex_state)(''A'' \<mapsto> 6)\<rparr>, [])"
    by simp
  from c1 c2 c3 c4 c5' c6 show ?thesis by blast
qed

subsection \<open>C7: picking the same winner twice\<close>

text \<open>
  Claim C7.  \<open>clickTeam\<close> is a click on a team button: the handler receives the node
  that the current graph holds under the id, and its local mutation runs.  In a graph
  with pairwise different ids in which no match links to itself, clicking the same side
  of the same match twice in a row leaves the state (the whole graph, with the match
  fed by the forward link and the play-in game 3, and the pending selections) exactly
  as the first click left it.
\<close>

theorem same_pick_twice:
  assumes "matches st = Some ms" "ids_distinct ms"
    and "\<forall>m \<in> set (all_matches ms). next_match_id m \<noteq> Defined (id_m m)"
  shows "clickTeam env (clickTeam env st i team) i team = clickTeam env st i team"
proof (cases "node ms i")
  case None
  with assms(1) show ?thesis by (simp add: clickTeam_def)
next
  case (Some m)
  from node_SomeD[OF Some] have mi: "m \<in> set (all_matches ms)" "id_m m = i" by simp_all
  show ?thesis
  proof (cases "setWinnerLocal env st m team")
    case None
    with assms(1) Some show ?thesis by (simp add: clickTeam_def)
  next
    case (Some r)
    obtain st1 w g where r: "r = (st1, w, g)" by (cases r)
    from Some r have loc: "setWinnerLocal env st m team = Some (st1, w, g)" by simp
    from loc obtain ms0 ta tb where
      a: "truthy (bracketId env)" "canEdit env st" "matches st = Some ms0"
         "team_a m = Some ta" "ta \<noteq> []" "team_b m = Some tb" "tb \<noteq> []"
         "w = (if team = A then ta else tb)" "g = gamesToRecord (pendingGames st) m w"
         "st1 = st\<lparr>matches :=
                Some (map_graph (\<lambda>n. play_step (Some ms0) m (other team) (if team = A then tb else ta)
                                        (fwd_step m team w (own_step m w g n))) ms0),
              pendingGames := (pendingGames st)(id_m m := None)\<rparr>"
      by (rule setWinnerLocal_elim)
    from a(3) assms(1) have e: "ms0 = ms" by simp
    define l where "l = (if team = A then tb else ta)"
    define F where "F = (\<lambda>n. play_step (Some ms) m (other team) l (fwd_step m team w (own_step m w g n)))"
    define m1 where "m1 = m\<lparr>predicted_winner := Some w, predicted_winner_games := Some g\<rparr>"
    have st1: "st1 = st\<lparr>matches := Some (map_graph F ms),
                          pendingGames := (pendingGames st)(id_m m := None)\<rparr>"
      using a(10) by (simp add: e F_def l_def)
    have first: "clickTeam env st i team = st1"
      using assms(1) \<open>node ms i = Some m\<close> loc by (simp add: clickTeam_def)
    have nsl: "next_match_id m \<noteq> Defined (id_m m)" using assms(3) mi(1) by blast
    have nd: "node (map_graph F ms) i = Some m1"
      using own_node_after[OF mi(1) assms(2) nsl, of "other team" l team w g]
      by (simp add: F_def m1_def mi(2))
    have pres: "\<And>n. round (F n) = round n" "\<And>n. slot (F n) = slot n" "\<And>n. id_m (F n) = id_m n"
      by (simp_all add: F_def)
    have F1: "(\<lambda>n. play_step (Some (map_graph F ms)) m1 (other team) l
                 (fwd_step m1 team w (own_step m1 w g n))) = F"
      unfolding m1_def
      by (simp only: play_step_picked[of F, OF pres] fwd_step_picked own_step_picked) (simp add: F_def)
    have ce: "canEdit env st1" using a(2) canEdit_cong[of st1 st env] by (simp add: st1)
    have g1: "g = gamesToRecord (pendingGames st1) m1 w"
      by (simp add: m1_def a(9) gamesToRecord_again)
    have t1: "team_a m1 = Some ta" "team_b m1 = Some tb" by (simp_all add: m1_def a)
    have ms1: "matches st1 = Some (map_graph F ms)" by (simp add: st1)
    from setWinnerLocal_Some[OF a(1) ce ms1 t1(1) a(5) t1(2) a(7) a(8) l_def g1]
    have second: "setWinnerLocal env st1 m1 team =
        Some (st1\<lparr>matches := Some (map_graph F (map_graph F ms)),
                  pendingGames := (pendingGames st1)(id_m m1 := None)\<rparr>, w, g)"
      by (simp add: F1)
    have FF: "map_graph F (map_graph F ms) = map_graph F ms"
      by (simp add: map_graph_comp) (simp add: F_def pick_step_idem)
    have "st1\<lparr>matches := Some (map_graph F (map_graph F ms)),
                  pendingGames := (pendingGames st1)(id_m m1 := None)\<rparr> = st1"
      by (simp add: FF st1 m1_def)
    with second have "setWinnerLocal env st1 m1 team = Some (st1, w, g)" by simp
    with ms1 nd have "clickTeam env st1 i team = st1" by (simp add: clickTeam_def)
    with first show ?thesis by simp
  qed
qed

theorem same_pick_twice_witness:
  "clickTeam ex_env (clickTeam ex_env ex_state ''A'' A) ''A'' A = clickTeam ex_env ex_state ''A'' A
   \<and> map_option team_a (node_in (matches ex_state) ''B'') = Some None
   \<and> map_option team_a (node_in (matches (clickTeam ex_env ex_state ''A'' A)) ''B'') = Some (Some ''BOS'')
   \<and> map_option predicted_winner (node_in (matches (clickTeam ex_env ex_state ''A'' A)) ''A'')
        = Some (Some ''BOS'')"
proof -
  have m: "matches ex_state = Some ex_graph" by (simp add: ex_state_def)
  have n: "\<forall>m \<in> set (all_matches ex_graph). next_match_id m \<noteq> Defined (id_m m)"
    by (simp add: ex_graph_nodes) (simp add: ex_defs)
  have c: "clickTeam ex_env ex_state ''A'' A =
      ex_state\<lparr>matches :=
                Some (map_graph (\<lambda>n. play_step (Some ex_graph) ex_A (other A) ''MIA''
                                        (fwd_step ex_A A ''BOS'' (own_step ex_A ''BOS'' 5 n))) ex_graph),
              pendingGames := (pendingGames ex_state)(id_m ex_A := None)\<rparr>"
    by (simp add: clickTeam_def m ex_nodes ex_pick_A)
  have pl: "play_step (Some ex_graph) ex_A s l = (\<lambda>n. n)" for s l
    by (simp add: play_step_def findGame3_def) (simp add: ex_A_def tbd_def)
  have fb: "fwd_step ex_A A ''BOS'' ex_B = write_slot A ''BOS'' A ex_A ex_B"
    using fwd_step_target[of ex_A "''B''" SlotA ex_B A "''BOS''"]
    by (simp add: ex_A_def ex_B_def)
  have ob: "own_step ex_A ''BOS'' 5 ex_B = ex_B"
    by (rule own_step_miss) (simp add: ex_A_def ex_B_def)
  have fa: "fwd_step ex_A A ''BOS'' n = n" if "id_m n = ''A''" for n
    using that by (intro fwd_step_absent[of _ "''B''"]) (simp_all add: ex_A_def)
  have oa: "own_step ex_A ''BOS'' 5 ex_A =
      ex_A\<lparr>predicted_winner := Some ''BOS'', predicted_winner_games := Some 5\<rparr>"
    by (simp add: own_step_def upd_if_def)
  have ida: "id_m ex_A = ''A''" by (simp add: ex_A_def)
  have b0: "map_option team_a (node_in (matches ex_state) ''B'') = Some None"
    by (simp add: node_in_def m ex_nodes) (simp add: ex_B_def tbd_def)
  have b1: "map_option team_a (node_in (matches (clickTeam ex_env ex_state ''A'' A)) ''B'') = Some (Some ''BOS'')"
    by (simp add: c node_in_def node_map_graph ex_nodes pl ob fb write_slot_A)
  have a1: "map_option predicted_winner (node_in (matches (clickTeam ex_env ex_state ''A'' A)) ''A'')
        = Some (Some ''BOS'')"
    by (simp add: c node_in_def node_map_graph ex_nodes pl oa fa ida)
  from same_pick_twice[OF m ex_graph_distinct n, of ex_env "''A''" A] b0 b1 a1 show ?thesis
    by simp
qed

subsection \<open>C8: undo\<close>

text \<open>
  Claim C8.  Unless the user is an admin and the bracket is the master bracket,
  \<open>handleUndo\<close> returns the state it was given and sends no request.  With a bracket id
  and a loaded graph, an admin on the master bracket does get the local mutation, and
  that mutation (\<open>undoLocal\<close>, the state before the request is answered) changes the graph
  in the nodes with the id of \<open>mt\<close> only, setting their \<open>predicted_winner\<close> and
  \<open>predicted_winner_games\<close> to null; every node with another id is the node it was, so
  a team already propagated to a later match stays there.  The pending selection of
  \<open>mt\<close> is removed, nothing else in the state changes, and the request sent is an undo.
  (Once the request is answered \<open>handleUndo\<close> reloads the graph from the backend.)
\<close>

theorem undo_clears_one_match:
  "(\<not> (isAdmin env \<and> isMasterBracket st) \<longrightarrow> handleUndo env backend st mt = (st, []))
   \<and> (truthy (bracketId env) \<and> matches st \<noteq> None \<and> isAdmin env \<and> isMasterBracket st \<longrightarrow>
        undoLocal env st mt \<noteq> None)
   \<and> (\<forall>st1. undoLocal env st mt = Some st1 \<longrightarrow>
        (\<exists>ms ms1 bid.
           matches st = Some ms \<and> matches st1 = Some ms1
           \<and> length (all_matches ms1) = length (all_matches ms)
           \<and> (\<forall>k < length (all_matches ms).
                 (id_m (all_matches ms ! k) = id_m mt \<longrightarrow>
                    all_matches ms1 ! k =
                      (all_matches ms ! k)\<lparr>predicted_winner := None, predicted_winner_games := None\<rparr>)
                 \<and> (id_m (all_matches ms ! k) \<noteq> id_m mt \<longrightarrow>
                      all_matches ms1 ! k = all_matches ms ! k))
           \<and> pendingGames st1 = (pendingGames st)(id_m mt := None)
           \<and> st1\<lparr>matches := matches st, pendingGames := pendingGames st\<rparr> = st
           \<and> bracketId env = Some bid
           \<and> snd (handleUndo env backend st mt) = [\<lparr>path = match_path bid mt, body = UndoBody\<rparr>]))"
proof (intro conjI allI impI)
  assume "\<not> (isAdmin env \<and> isMasterBracket st)"
  then show "handleUndo env backend st mt = (st, [])"
    by (auto simp: handleUndo_def undoLocal_def)
next
  assume "truthy (bracketId env) \<and> matches st \<noteq> None \<and> isAdmin env \<and> isMasterBracket st"
  then show "undoLocal env st mt \<noteq> None" by (auto simp: undoLocal_def)
next
  fix st1
  assume u: "undoLocal env st mt = Some st1"
  from undoLocal_SomeD[OF u] obtain ms bid where
    a: "truthy (bracketId env)" "matches st = Some ms" "isAdmin env" "isMasterBracket st"
       "bracketId env = Some bid"
    by (auto simp: truthy_def split: option.splits)
  define ms1 where "ms1 = map_graph (upd_if (id_m mt)
                        (\<lambda>m. m\<lparr>predicted_winner := None, predicted_winner_games := None\<rparr>)) ms"
  from undoLocal_Some[OF a(1-4), of mt] u
  have st1: "st1 = st\<lparr>matches := Some ms1, pendingGames := (pendingGames st)(id_m mt := None)\<rparr>"
    by (simp add: ms1_def)
  have len: "length (all_matches ms1) = length (all_matches ms)"
    by (simp add: ms1_def all_matches_map_graph)
  have nth: "\<forall>k < length (all_matches ms).
                 (id_m (all_matches ms ! k) = id_m mt \<longrightarrow>
                    all_matches ms1 ! k =
                      (all_matches ms ! k)\<lparr>predicted_winner := None, predicted_winner_games := None\<rparr>)
                 \<and> (id_m (all_matches ms ! k) \<noteq> id_m mt \<longrightarrow>
                      all_matches ms1 ! k = all_matches ms ! k)"
    by (simp add: ms1_def all_matches_upd_nth)
  have frame: "st1\<lparr>matches := matches st, pendingGames := pendingGames st\<rparr> = st"
    by (simp add: st1)
  have sent: "snd (handleUndo env backend st mt) = [\<lparr>path = match_path bid mt, body = UndoBody\<rparr>]"
    using u a(5) by (simp add: handleUndo_def Let_def)
  show "\<exists>ms ms1 bid.
           matches st = Some ms \<and> matches st1 = Some ms1
           \<and> length (all_matches ms1) = length (all_matches ms)
           \<and> (\<forall>k < length (all_matches ms).
                 (id_m (all_matches ms ! k) = id_m mt \<longrightarrow>
                    all_matches ms1 ! k =
                      (all_matches ms ! k)\<lparr>predicted_winner := None, predicted_winner_games := None\<rparr>)
                 \<and> (id_m (all_matches ms ! k) \<noteq> id_m mt \<longrightarrow>
                      all_matches ms1 ! k = all_matches ms ! k))
           \<and> pendingGames st1 = (pendingGames st)(id_m mt := None)
           \<and> st1\<lparr>matches := matches st, pendingGames := pendingGames st\<rparr> = st
           \<and> bracketId env = Some bid
           \<and> snd (handleUndo env backend st mt) = [\<lparr>path = match_path bid mt, body = UndoBody\<rparr>]"
    apply (rule exI[of _ ms], rule exI[of _ ms1], rule exI[of _ bid])
    using a(2,5) len nth frame sent by (simp add: st1)
qed

theorem undo_clears_one_match_witness:
  "handleUndo ex_env ex_accepting ex_state ex_B = (ex_state, [])
   \<and> (\<exists>st1 ms1. undoLocal ex_admin ex_master ex_B = Some st1 \<and> matches st1 = Some ms1
        \<and> all_matches ms1 =
            [ex_A, ex_B\<lparr>predicted_winner := None, predicted_winner_games := None\<rparr>, ex_G2, ex_G3]
        \<and> pendingGames st1 = (pendingGames ex_master)(''B'' := None)
        \<and> snd (handleUndo ex_admin ex_accepting ex_master ex_B) =
             [\<lparr>path = ''/bracket/bk/match/B'', body = UndoBody\<rparr>])"
proof -
  have na: "\<not> (isAdmin ex_env \<and> isMasterBracket ex_state)"
    by (simp add: isAdmin_def ex_env_def truthy_bool_def)
  have ok: "truthy (bracketId ex_admin) \<and> matches ex_master \<noteq> None \<and> isAdmin ex_admin
      \<and> isMasterBracket ex_master"
    by (simp add: truthy_def ex_admin_def ex_master_def ex_state_def isAdmin_def
        isMasterBracket_def truthy_bool_def)
  note th = undo_clears_one_match[of ex_admin ex_master ex_accepting ex_B]
  from undo_clears_one_match[of ex_env ex_state ex_accepting ex_B] na
  have c1: "handleUndo ex_env ex_accepting ex_state ex_B = (ex_state, [])" by blast
  from th ok obtain st1 where u: "undoLocal ex_admin ex_master ex_B = Some st1" by blast
  have m: "matches ex_master = Some ex_graph" by (simp add: ex_master_def ex_state_def)
  from th u m obtain ms1 bid where
    a: "matches st1 = Some ms1" "length (all_matches ms1) = length (all_matches ex_graph)"
      "\<forall>k < length (all_matches ex_graph).
                 (id_m (all_matches ex_graph ! k) = id_m ex_B \<longrightarrow>
                    all_matches ms1 ! k =
                      (all_matches ex_graph ! k)\<lparr>predicted_winner := None, predicted_winner_games := None\<rparr>)
                 \<and> (id_m (all_matches ex_graph ! k) \<noteq> id_m ex_B \<longrightarrow>
                      all_matches ms1 ! k = all_matches ex_graph ! k)"
      "pendingGames st1 = (pendingGames ex_master)(id_m ex_B := None)"
      "bracketId ex_admin = Some bid"
      "snd (handleUndo ex_admin ex_accepting ex_master ex_B) = [\<lparr>path = match_path bid ex_B, body = UndoBody\<rparr>]"
    by auto
  have ids: "id_m ex_A = ''A''" "id_m ex_B = ''B''" "id_m ex_G2 = ''G2''" "id_m ex_G3 = ''G3''"
    by (simp_all add: ex_A_def ex_B_def ex_G2_def ex_G3_def)
  from a(2) have len: "length (all_matches ms1) = 4" by (simp add: ex_graph_nodes)
  have k: "all_matches ms1 ! 0 = ex_A"
    "all_matches ms1 ! 1 = ex_B\<lparr>predicted_winner := None, predicted_winner_games := None\<rparr>"
    "all_matches ms1 ! 2 = ex_G2" "all_matches ms1 ! 3 = ex_G3"
    using a(3)[rule_format, of 0] a(3)[rule_format, of 1] a(3)[rule_format, of 2]
      a(3)[rule_format, of 3]
    by (simp_all add: ex_graph_nodes ids)
  have l: "all_matches ms1 =
            [ex_A, ex_B\<lparr>predicted_winner := None, predicted_winner_games := None\<rparr>, ex_G2, ex_G3]"
    using len k by (intro nth_equalityI) (auto simp: less_Suc_eq numeral_eq_Suc)
  from a(5) have bid: "bid = ''bk''" by (simp add: ex_admin_def)
  have p: "match_path ''bk'' ex_B = ''/bracket/bk/match/B''" by (simp add: match_path_def ids)
  from c1 u a(1,4,6) l bid p ids show ?thesis by auto
qed

subsection \<open>C9: saving needs complete predictions\<close>

text \<open>
  Claim C9.  \<open>allDecided\<close> holds exactly when the graph is loaded, has a conference, and
  every match with both participants assigned has a recorded winner and, above round 0,
  a recorded series length; a match that lacks a participant is never asked for
  anything.  So whenever some match with both participants lacks a winner, or is above
  round 0 and lacks a series length, \<open>canSave\<close> is false and \<open>handleSaveBracket\<close> returns
  the state it was given without sending a request.
\<close>

theorem save_needs_complete_predictions:
  "(allDecided (matches st) \<longleftrightarrow>
      (\<exists>ms. matches st = Some ms \<and> ms \<noteq> []
         \<and> (\<forall>m \<in> set (all_matches ms).
               truthy (team_a m) \<and> truthy (team_b m) \<longrightarrow>
                 truthy (predicted_winner m)
                 \<and> (round m > 0 \<longrightarrow> predicted_winner_games m \<noteq> None))))
   \<and> (\<forall>ms m. matches st = Some ms \<and> m \<in> set (all_matches ms)
          \<and> truthy (team_a m) \<and> truthy (team_b m)
          \<and> (\<not> truthy (predicted_winner m) \<or> (round m > 0 \<and> predicted_winner_games m = None)) \<longrightarrow>
          \<not> canSave env st \<and> handleSaveBracket env backend st = (st, []))"
proof (intro conjI allI impI)
  show "allDecided (matches st) \<longleftrightarrow>
      (\<exists>ms. matches st = Some ms \<and> ms \<noteq> []
         \<and> (\<forall>m \<in> set (all_matches ms).
               truthy (team_a m) \<and> truthy (team_b m) \<longrightarrow>
                 truthy (predicted_winner m)
                 \<and> (round m > 0 \<longrightarrow> predicted_winner_games m \<noteq> None)))"
  proof (cases "matches st")
    case None
    then show ?thesis by (simp add: allDecided_def)
  next
    case (Some ms)
    then show ?thesis by (simp add: allDecided_iff decided_iff)
  qed
next
  fix ms m
  assume h: "matches st = Some ms \<and> m \<in> set (all_matches ms)
          \<and> truthy (team_a m) \<and> truthy (team_b m)
          \<and> (\<not> truthy (predicted_winner m) \<or> (round m > 0 \<and> predicted_winner_games m = None))"
  then have "\<not> decided m" by (auto simp: decided_iff)
  with h have nd: "\<not> allDecided (matches st)" by (auto simp: allDecided_iff)
  then show "\<not> canSave env st" by (simp add: canSave_def)
  then show "handleSaveBracket env backend st = (st, [])"
    by (simp add: handleSaveBracket_def split: option.splits)
qed

theorem save_needs_complete_predictions_witness:
  "\<not> canSave ex_env ex_state
   \<and> handleSaveBracket ex_env ex_accepting ex_state = (ex_state, [])
   \<and> truthy (team_a ex_A) \<and> truthy (team_b ex_A) \<and> \<not> truthy (predicted_winner ex_A)
   \<and> \<not> truthy (team_a ex_B)
   \<and> allDecided (matches (ex_state\<lparr>matches := Some ex_decided\<rparr>))
   \<and> canSave ex_env (ex_state\<lparr>matches := Some ex_decided\<rparr>)"
proof -
  have m: "matches ex_state = Some ex_graph" by (simp add: ex_state_def)
  have t: "truthy (team_a ex_A)" "truthy (team_b ex_A)" "\<not> truthy (predicted_winner ex_A)"
    "\<not> truthy (team_a ex_B)"
    by (simp_all add: truthy_def ex_A_def ex_B_def tbd_def)
  have a: "ex_A \<in> set (all_matches ex_graph)" by (simp add: ex_graph_nodes)
  note th = save_needs_complete_predictions[of ex_state ex_env ex_accepting]
  from th m a t have c1: "\<not> canSave ex_env ex_state"
    "handleSaveBracket ex_env ex_accepting ex_state = (ex_state, [])"
    by blast+
  have nodes: "all_matches ex_decided = [ex_A_picked, ex_B, ex_G2\<lparr>predicted_winner := Some ''LAL''\<rparr>]"
    by (simp add: all_matches_def ex_decided_def)
  have d: "matches (ex_state\<lparr>matches := Some ex_decided\<rparr>) = Some ex_decided \<and> ex_decided \<noteq> []
         \<and> (\<forall>m \<in> set (all_matches ex_decided).
               truthy (team_a m) \<and> truthy (team_b m) \<longrightarrow>
                 truthy (predicted_winner m)
                 \<and> (round m > 0 \<longrightarrow> predicted_winner_games m \<noteq> None))"
    by (simp add: nodes) (simp add: ex_decided_def truthy_def ex_A_picked_def ex_A_def ex_B_def ex_G2_def tbd_def)
  from save_needs_complete_predictions[of "ex_state\<lparr>matches := Some ex_decided\<rparr>" ex_env ex_accepting, THEN conjunct1] d
  have c2: "allDecided (matches (ex_state\<lparr>matches := Some ex_decided\<rparr>))" by blast
  have ce: "canEdit ex_env (ex_state\<lparr>matches := Some ex_decided\<rparr>)"
    using canEdit_cong[of "ex_state\<lparr>matches := Some ex_decided\<rparr>" ex_state ex_env] ex_canEdit by simp
  have tr: "trimmedName (ex_state\<lparr>matches := Some ex_decided\<rparr>) \<noteq> []"
  proof -
    have "trim ''My picks'' = ''My picks''"
      by (rule trim_untouched)
         (simp_all add: leading_space_def trailing_space_def white_space_def)
    then show ?thesis by (simp add: trimmedName_def ex_state_def)
  qed
  have c3: "canSave ex_env (ex_state\<lparr>matches := Some ex_decided\<rparr>)"
    using c2 ce tr by (simp add: canSave_def savingLockedForUser_def) (simp add: ex_state_def)
  from c1 c2 c3 t show ?thesis by simp
qed

subsection \<open>C10: changing the series length of a recorded pick\<close>

text \<open>
  Claim C10.  Let the guards of \<open>handleSelectGames\<close> pass, and let \<open>mt\<close> be at a round
  other than 0 (so at every round above 0) with a recorded winner \<open>w\<close>.  The local
  mutation changes the graph and nothing else in the state; in the graph, each node
  with the id of \<open>mt\<close> has the new \<open>predicted_winner_games\<close> and is otherwise the node it
  was (so its \<open>predicted_winner\<close>, participants and metadata stay), and every node with
  another id is the node it was: nothing is propagated.  The one request sent has the
  shape of a winner pick, \<open>set_winner\<close> with team \<open>w\<close> and the new length; when the
  backend accepts it, the final state is the locally changed one.
\<close>

theorem select_games_changes_length_only:
  assumes "truthy (bracketId env)" "canEdit env st" "matches st = Some ms"
    and "round mt \<noteq> 0" "predicted_winner mt = Some w" "w \<noteq> []"
  shows "\<exists>ms1 bid.
     selectGamesLocal env st mt v = Recorded (st\<lparr>matches := Some ms1\<rparr>) w
     \<and> length (all_matches ms1) = length (all_matches ms)
     \<and> (\<forall>k < length (all_matches ms).
           (id_m (all_matches ms ! k) = id_m mt \<longrightarrow>
              all_matches ms1 ! k = (all_matches ms ! k)\<lparr>predicted_winner_games := Some v\<rparr>)
           \<and> (id_m (all_matches ms ! k) \<noteq> id_m mt \<longrightarrow>
                all_matches ms1 ! k = all_matches ms ! k))
     \<and> bracketId env = Some bid
     \<and> snd (handleSelectGames env backend st mt v) =
         [\<lparr>path = match_path bid mt, body = SetWinnerBody w v\<rparr>]
     \<and> (\<forall>res. patch backend (match_path bid mt) (SetWinnerBody w v) = Inr res \<longrightarrow>
           fst (handleSelectGames env backend st mt v) =
             st\<lparr>matches := Some ms1, updatingMatchId := None, error := None\<rparr>)"
proof -
  from assms(1) obtain bid where bid: "bracketId env = Some bid" "bid \<noteq> []"
    by (auto simp: truthy_def split: option.splits)
  define ms1 where
    "ms1 = map_graph (upd_if (id_m mt) (\<lambda>m. m\<lparr>predicted_winner_games := Some v\<rparr>)) ms"
  have same: "(\<lambda>m. m\<lparr>predicted_winner := predicted_winner m, predicted_winner_games := Some v\<rparr>)
      = (\<lambda>m. m\<lparr>predicted_winner_games := Some v\<rparr>)"
    by (rule ext) simp
  have loc: "selectGamesLocal env st mt v = Recorded (st\<lparr>matches := Some ms1\<rparr>) w"
    using assms by (simp add: selectGamesLocal_def updateMatchInState_upd_if same ms1_def)
  have len: "length (all_matches ms1) = length (all_matches ms)"
    by (simp add: ms1_def all_matches_map_graph)
  have nth: "\<forall>k < length (all_matches ms).
           (id_m (all_matches ms ! k) = id_m mt \<longrightarrow>
              all_matches ms1 ! k = (all_matches ms ! k)\<lparr>predicted_winner_games := Some v\<rparr>)
           \<and> (id_m (all_matches ms ! k) \<noteq> id_m mt \<longrightarrow>
                all_matches ms1 ! k = all_matches ms ! k)"
    by (simp add: ms1_def all_matches_upd_nth)
  have sent: "snd (handleSelectGames env backend st mt v) =
         [\<lparr>path = match_path bid mt, body = SetWinnerBody w v\<rparr>]"
    by (simp add: handleSelectGames_def loc bid Let_def)
  have acc: "\<forall>res. patch backend (match_path bid mt) (SetWinnerBody w v) = Inr res \<longrightarrow>
           fst (handleSelectGames env backend st mt v) =
             st\<lparr>matches := Some ms1, updatingMatchId := None, error := None\<rparr>"
    by (simp add: handleSelectGames_def loc bid Let_def)
  show ?thesis
    apply (rule exI[of _ ms1], rule exI[of _ bid])
    using loc len nth bid(1) sent acc by simp
qed

theorem select_games_changes_length_only_witness:
  "\<exists>ms1. handleSelectGames ex_env ex_accepting ex_state_ready ex_B_ready 7 =
       (ex_state_ready\<lparr>matches := Some ms1, updatingMatchId := None, error := None\<rparr>,
        [\<lparr>path = ''/bracket/bk/match/B'', body = SetWinnerBody ''NYK'' 7\<rparr>])
     \<and> all_matches ms1 = [ex_A, ex_B_ready\<lparr>predicted_winner_games := Some 7\<rparr>]
     \<and> predicted_winner (ex_B_ready\<lparr>predicted_winner_games := Some 7\<rparr>) = Some ''NYK''
     \<and> predicted_winner_games ex_B_ready = Some 6"
proof -
  have m: "matches ex_state_ready = Some ex_graph_ready" by (simp add: ex_state_ready_def)
  have ce: "canEdit ex_env ex_state_ready"
    using canEdit_cong[of ex_state_ready ex_state ex_env] ex_canEdit
    by (simp add: ex_state_ready_def)
  have f: "round ex_B_ready \<noteq> 0" "predicted_winner ex_B_ready = Some ''NYK''" "''NYK'' \<noteq> []"
    "id_m ex_B_ready = ''B''" "id_m ex_A = ''A''" "predicted_winner_games ex_B_ready = Some 6"
    by (simp_all add: ex_B_ready_def ex_B_def ex_A_def tbd_def)
  have nodes: "all_matches ex_graph_ready = [ex_A, ex_B_ready]"
    by (simp add: all_matches_def ex_graph_ready_def)
  have acc: "patch ex_accepting p b = Inr ex_response" for p b
    by (simp add: ex_accepting_def)
  from select_games_changes_length_only[OF ex_bracketId ce m f(1,2,3), of 7 ex_accepting]
  obtain ms1 bid where
    a: "length (all_matches ms1) = length (all_matches ex_graph_ready)"
       "\<forall>k < length (all_matches ex_graph_ready).
           (id_m (all_matches ex_graph_ready ! k) = id_m ex_B_ready \<longrightarrow>
              all_matches ms1 ! k = (all_matches ex_graph_ready ! k)\<lparr>predicted_winner_games := Some 7\<rparr>)
           \<and> (id_m (all_matches ex_graph_ready ! k) \<noteq> id_m ex_B_ready \<longrightarrow>
                all_matches ms1 ! k = all_matches ex_graph_ready ! k)"
       "bracketId ex_env = Some bid"
       "snd (handleSelectGames ex_env ex_accepting ex_state_ready ex_B_ready 7) =
         [\<lparr>path = match_path bid ex_B_ready, body = SetWinnerBody ''NYK'' 7\<rparr>]"
       "\<forall>res. patch ex_accepting (match_path bid ex_B_ready) (SetWinnerBody ''NYK'' 7) = Inr res \<longrightarrow>
           fst (handleSelectGames ex_env ex_accepting ex_state_ready ex_B_ready 7) =
             ex_state_ready\<lparr>matches := Some ms1, updatingMatchId := None, error := None\<rparr>"
    by blast
  from a(3) have bid: "bid = ''bk''" by (simp add: ex_env_def)
  have p: "match_path ''bk'' ex_B_ready = ''/bracket/bk/match/B''"
    by (simp add: match_path_def f)
  from a(5) acc have fin: "fst (handleSelectGames ex_env ex_accepting ex_state_ready ex_B_ready 7) =
             ex_state_ready\<lparr>matches := Some ms1, updatingMatchId := None, error := None\<rparr>"
    by blast
  from a(1) have len: "length (all_matches ms1) = 2" by (simp add: nodes)
  have k: "all_matches ms1 ! 0 = ex_A"
     "all_matches ms1 ! 1 = ex_B_ready\<lparr>predicted_winner_games := Some 7\<rparr>"
    using a(2)[rule_format, of 0] a(2)[rule_format, of 1] by (simp_all add: nodes f)
  have l: "all_matches ms1 = [ex_A, ex_B_ready\<lparr>predicted_winner_games := Some 7\<rparr>]"
    using len k by (intro nth_equalityI) (auto simp: less_Suc_eq numeral_eq_Suc)
  have "handleSelectGames ex_env ex_accepting ex_state_ready ex_B_ready 7 =
       (ex_state_ready\<lparr>matches := Some ms1, updatingMatchId := None, error := None\<rparr>,
        [\<lparr>path = ''/bracket/bk/match/B'', body = SetWinnerBody ''NYK'' 7\<rparr>])"
    using fin a(4) bid p by (simp add: prod_eq_iff)
  with l f show ?thesis by auto
qed

end
